theory Spec2Isabelle
  imports Complex_Main
begin

section \<open>JavaScript values as the program sees them\<close>

text \<open>
  The presentation data of the application lives in the browser's key-value store as JSON
  text and is handled at run time as untyped values (the loader and the editor both take
  \<^verbatim>\<open>any\<close>). A value is therefore modelled as a JSON tree. An object is an association
  list in insertion order; a property that is absent models \<^verbatim>\<open>undefined\<close>, so a property
  read returns an option. Numbers are only ever tested for zero, copied or written out,
  never computed with: a number is given by the text that \<^verbatim>\<open>JSON.stringify\<close> writes for
  it, such as \<^verbatim>\<open>0\<close>, \<^verbatim>\<open>1\<close>, \<^verbatim>\<open>0.5\<close> or \<^verbatim>\<open>90\<close> (each number has one such text; zero
  and minus zero, which are equal and both falsy, are both written \<^verbatim>\<open>0\<close>).

  JavaScript enumerates integer-like keys before the others; the list keeps them where
  they were inserted. Two equal lists stand for objects with the same properties and
  values, so an equation between values below gives the deep equality of what they stand
  for, in whatever order the keys are enumerated.
\<close>

datatype json =
    JNull
  | JBool bool
  | JNum string
  | JStr string
  | JArr "json list"
  | JObj "(string \<times> json) list"

text \<open>Truthiness, as used by \<^verbatim>\<open>||\<close>, \<^verbatim>\<open>&&\<close>, \<^verbatim>\<open>!\<close> and \<^verbatim>\<open>if\<close>.\<close>

fun truthy :: "json \<Rightarrow> bool" where
  "truthy JNull = False"
| "truthy (JBool b) = b"
| "truthy (JNum t) = (t \<noteq> ''0'')"
| "truthy (JStr s) = (s \<noteq> [])"
| "truthy (JArr xs) = True"
| "truthy (JObj kvs) = True"

text \<open>
  \<^verbatim>\<open>v?.k\<close> for the property names the program reads (none of them is \<^verbatim>\<open>length\<close> or an
  index, so only objects have them).
\<close>

fun get_prop :: "json \<Rightarrow> string \<Rightarrow> json option" where
  "get_prop (JObj kvs) k = map_of kvs k"
| "get_prop _ k = None"

text \<open>\<^verbatim>\<open>a || b\<close> and \<^verbatim>\<open>a ?? b\<close>, where \<open>None\<close> is \<^verbatim>\<open>undefined\<close>.\<close>

fun or_else :: "json option \<Rightarrow> json \<Rightarrow> json" where
  "or_else None d = d"
| "or_else (Some v) d = (if truthy v then v else d)"

fun nullish_or :: "json option \<Rightarrow> json \<Rightarrow> json" where
  "nullish_or None d = d"
| "nullish_or (Some JNull) d = d"
| "nullish_or (Some v) d = v"

fun typeof_string :: "json option \<Rightarrow> bool" where
  "typeof_string (Some (JStr s)) = True"
| "typeof_string _ = False"

text \<open>
  \<^verbatim>\<open>obj[k] = v\<close> on the property list of an object: an existing property keeps its
  place, a new one is added at the end.
\<close>

primrec set_prop :: "string \<Rightarrow> json \<Rightarrow> (string \<times> json) list \<Rightarrow> (string \<times> json) list" where
  "set_prop k v [] = [(k, v)]"
| "set_prop k v (p # ps) = (if fst p = k then (k, v) # ps else p # set_prop k v ps)"

text \<open>Decimal rendering of a non-negative integer, as in a template string.\<close>

fun show_nat :: "nat \<Rightarrow> string" where
  "show_nat n =
     (if n < 10 then [''0123456789'' ! n]
      else show_nat (n div 10) @ [''0123456789'' ! (n mod 10)])"

declare show_nat.simps [simp del]

fun indexed :: "nat \<Rightarrow> 'a list \<Rightarrow> (string \<times> 'a) list" where
  "indexed i [] = []"
| "indexed i (x # xs) = (show_nat i, x) # indexed (Suc i) xs"

text \<open>
  The own enumerable properties that an object spread \<^verbatim>\<open>{...v}\<close> copies: those of an
  object, the indexed elements of an array, the indexed characters of a string, and
  nothing for the other values.
\<close>

fun own_props :: "json \<Rightarrow> (string \<times> json) list" where
  "own_props (JObj kvs) = kvs"
| "own_props (JArr xs) = indexed 0 xs"
| "own_props (JStr s) = indexed 0 (map (\<lambda>c. JStr [c]) s)"
| "own_props _ = []"

text \<open>\<^verbatim>\<open>{...a, ...b}\<close>: the properties of \<open>b\<close> are assigned one after the other over \<open>a\<close>.\<close>

fun spread :: "(string \<times> json) list \<Rightarrow> (string \<times> json) list \<Rightarrow> (string \<times> json) list" where
  "spread a [] = a"
| "spread a ((k, v) # b) = spread (set_prop k v a) b"

section \<open>The editor's loader: cleaning the slides of a loaded presentation\<close>

definition defaultTitleStyle :: "(string \<times> json) list" where
  "defaultTitleStyle =
     [(''fontSize'', JStr ''48px''), (''fontFamily'', JStr ''Arial''),
      (''color'', JStr ''#000000''), (''bold'', JBool True),
      (''italic'', JBool False), (''underline'', JBool False)]"

definition defaultContentStyle :: "(string \<times> json) list" where
  "defaultContentStyle =
     [(''fontSize'', JStr ''24px''), (''fontFamily'', JStr ''Arial''),
      (''color'', JStr ''#333333''), (''bold'', JBool False),
      (''italic'', JBool False), (''underline'', JBool False)]"

definition defaultBg :: json where
  "defaultBg = JObj [(''type'', JStr ''color''), (''value'', JStr ''#ffffff'')]"

text \<open>
  \<^verbatim>\<open>slide?.background && typeof slide.background.type === 'string' ? slide.background : defaultBg\<close>
\<close>

definition pick_background :: "json \<Rightarrow> json" where
  "pick_background slide =
     (case get_prop slide ''background'' of
        None \<Rightarrow> defaultBg
      | Some b \<Rightarrow> if truthy b \<and> typeof_string (get_prop b ''type'') then b else defaultBg)"

text \<open>
  The per-variant completion of the background. The picked background is always an
  object, whose properties are assigned in place.
\<close>

fun ensure_background_props :: "json \<Rightarrow> json" where
  "ensure_background_props (JObj kvs) =
     (if map_of kvs ''type'' = Some (JStr ''image'') then
        let kvs1 = set_prop ''opacity'' (nullish_or (map_of kvs ''opacity'') (JNum ''1'')) kvs;
            kvs2 = set_prop ''blur'' (nullish_or (map_of kvs1 ''blur'') (JNum ''0'')) kvs1
        in JObj kvs2
      else if map_of kvs ''type'' = Some (JStr ''gradient'') then
        let kvs1 = set_prop ''color1'' (or_else (map_of kvs ''color1'') (JStr ''#ffffff'')) kvs;
            kvs2 = set_prop ''color2'' (or_else (map_of kvs1 ''color2'') (JStr ''#bbbbbb'')) kvs1;
            kvs3 = set_prop ''angle'' (or_else (map_of kvs2 ''angle'') (JNum ''90'')) kvs2
        in JObj kvs3
      else JObj kvs)"
| "ensure_background_props b = b"

text \<open>
  The callback of \<^verbatim>\<open>slides.map\<close>; \<open>now\<close> is the value of \<^verbatim>\<open>Date.now()\<close> when the
  callback runs.
\<close>

definition cleanSlide :: "nat \<Rightarrow> json \<Rightarrow> nat \<Rightarrow> json" where
  "cleanSlide now slide index =
     JObj
      [(''id'', or_else (get_prop slide ''id'') (JStr (show_nat now @ ''-'' @ show_nat index))),
       (''title'', or_else (get_prop slide ''title'') (JStr ''Untitled Slide'')),
       (''content'',
          (case get_prop slide ''content'' of Some (JArr xs) \<Rightarrow> JArr xs | _ \<Rightarrow> JArr [])),
       (''background'', ensure_background_props (pick_background slide)),
       (''titleStyle'',
          JObj (spread defaultTitleStyle
                  (own_props (or_else (get_prop slide ''titleStyle'') (JObj []))))),
       (''contentStyle'',
          JObj (spread defaultContentStyle
                  (own_props (or_else (get_prop slide ''contentStyle'') (JObj [])))))]"

fun cleanSlidesFrom :: "(nat \<Rightarrow> nat) \<Rightarrow> nat \<Rightarrow> json list \<Rightarrow> json list" where
  "cleanSlidesFrom clock i [] = []"
| "cleanSlidesFrom clock i (s # ss) = cleanSlide (clock i) s i # cleanSlidesFrom clock (Suc i) ss"

definition cleanedSlides :: "(nat \<Rightarrow> nat) \<Rightarrow> json list \<Rightarrow> json list" where
  "cleanedSlides clock slides = cleanSlidesFrom clock 0 slides"

text \<open>
  The body of the loader once the presentation has been read: \<open>None\<close> is the
  "Presentation not found." state, otherwise the presentation put into the editor,
  \<^verbatim>\<open>{ ...data, slides: cleanedSlides }\<close>.
\<close>

definition normalize :: "(nat \<Rightarrow> nat) \<Rightarrow> json \<Rightarrow> json option" where
  "normalize clock data =
     (if truthy data then
        let slides = (case get_prop data ''slides'' of Some (JArr xs) \<Rightarrow> xs | _ \<Rightarrow> [])
        in Some (JObj (set_prop ''slides'' (JArr (cleanedSlides clock slides))
                         (spread [] (own_props data))))
      else None)"

section \<open>Strings\<close>

text \<open>
  The white space that \<^verbatim>\<open>trim()\<close> and the pattern \<^verbatim>\<open>\s\<close> recognise, among the
  characters of the model (code points up to 255).
\<close>

definition is_space :: "char \<Rightarrow> bool" where
  "is_space c \<longleftrightarrow>
     c \<in> set [CHR 0x09, CHR 0x0A, CHR 0x0B, CHR 0x0C, CHR 0x0D, CHR 0x20, CHR 0xA0]"

definition trim :: "string \<Rightarrow> string" where
  "trim s = rev (dropWhile is_space (rev (dropWhile is_space s)))"

text \<open>\<^verbatim>\<open>s.replace(/\s/g, '')\<close>\<close>

definition remove_spaces :: "string \<Rightarrow> string" where
  "remove_spaces s = filter (\<lambda>c. \<not> is_space c) s"

text \<open>
  \<^verbatim>\<open>name.replace(/\.[^/.]+$/, "")\<close>: a final dot followed by at least one character,
  none of them a dot or a slash, is cut off.
\<close>

definition strip_extension :: "string \<Rightarrow> string" where
  "strip_extension name =
     (let ext = takeWhile (\<lambda>c. c \<noteq> CHR ''.'') (rev name)
      in if length ext < length name \<and> ext \<noteq> [] \<and> CHR ''/'' \<notin> set ext
         then take (length name - length ext - 1) name
         else name)"

definition show_int :: "int \<Rightarrow> string" where
  "show_int i = (if i < 0 then ''-'' @ show_nat (nat (- i)) else show_nat (nat i))"

datatype js_error = TypeError | QuotaExceededError | NetworkError | Error string

section \<open>The content and image generation service\<close>

text \<open>
  What the remote model call and the parsing of its answer come to: the call is rejected,
  the answer is not JSON text, or the answer parses to a value.
\<close>

datatype gen_response = CallFails | BadJson | Parsed json

text \<open>
  The \<^verbatim>\<open>for (let i = 2; i <= slideCount; i++) slides.push(...)\<close> loop of the two mock
  generators; \<open>mk i\<close> is the object pushed in round \<open>i\<close>.
\<close>

function pushLoop :: "(int \<Rightarrow> json) \<Rightarrow> int \<Rightarrow> int \<Rightarrow> json list \<Rightarrow> json list" where
  "pushLoop mk i slideCount slides =
     (if i \<le> slideCount then pushLoop mk (i + 1) slideCount (slides @ [mk i]) else slides)"
  by pat_completeness auto
termination
  by (relation "measure (\<lambda>(mk, i, slideCount, slides). nat (slideCount + 1 - i))") auto

declare pushLoop.simps [simp del]

definition mockSlide :: "string \<Rightarrow> int \<Rightarrow> json" where
  "mockSlide topic i =
     JObj [(''title'', JStr (''Topic '' @ show_int (i - 1) @ '' of '' @ topic)),
           (''content'',
              JArr [JStr (''This is bullet point 1 for slide '' @ show_int i @ ''.''),
                    JStr ''This is bullet point 2 discussing a key aspect.'',
                    JStr ''And a final concluding point for this slide.''])]"

definition getMockSlides :: "string \<Rightarrow> int \<Rightarrow> json list" where
  "getMockSlides topic slideCount =
     pushLoop (mockSlide topic) 2 slideCount
       [JObj [(''title'', JStr (''Introduction to '' @ topic)),
              (''content'', JArr [JStr ''By SlideForge AI'', JStr ''An AI-powered presentation''])]]"

definition mockSlideFromText :: "int \<Rightarrow> json" where
  "mockSlideFromText i =
     JObj [(''title'', JStr (''Key Point '' @ show_int (i - 1))),
           (''content'',
              JArr [JStr ''This slide discusses a key point from the text.'',
                    JStr ''Further details and analysis would go here.''])]"

definition getMockSlidesFromText :: "string \<Rightarrow> int \<Rightarrow> json list" where
  "getMockSlidesFromText txt slideCount =
     pushLoop mockSlideFromText 2 slideCount
       [JObj [(''title'', JStr ''Summary of Your Text''),
              (''content'',
                 JArr [JStr ''Based on the content you provided.'',
                       JStr (''First few words: '' @ [CHR 0x22] @ take 30 txt @ ''...'' @ [CHR 0x22])])]]"

text \<open>
  \<open>ai\<close> says whether the client was created (an API key is configured); \<open>response\<close> is
  what the call made for this request comes to.
\<close>

definition generatePresentationSlides :: "bool \<Rightarrow> gen_response \<Rightarrow> string \<Rightarrow> int \<Rightarrow> json list" where
  "generatePresentationSlides ai response topic slideCount =
     (if \<not> ai then getMockSlides topic slideCount
      else case response of
             CallFails \<Rightarrow> getMockSlides topic slideCount
           | BadJson \<Rightarrow> getMockSlides topic slideCount
           | Parsed jsonResponse \<Rightarrow> (case jsonResponse of JArr xs \<Rightarrow> xs | _ \<Rightarrow> []))"

definition generateSlidesFromText :: "bool \<Rightarrow> gen_response \<Rightarrow> string \<Rightarrow> int \<Rightarrow> json list" where
  "generateSlidesFromText ai response txt slideCount =
     (if \<not> ai then getMockSlidesFromText txt slideCount
      else case response of
             CallFails \<Rightarrow> getMockSlidesFromText txt slideCount
           | BadJson \<Rightarrow> getMockSlidesFromText txt slideCount
           | Parsed jsonResponse \<Rightarrow> (case jsonResponse of JArr xs \<Rightarrow> xs | _ \<Rightarrow> []))"

text \<open>
  The placeholder address \<^verbatim>\<open>prompt.replace(/\s/g, '')\<close> is built from; only a string has
  \<^verbatim>\<open>replace\<close>.
\<close>

definition placeholderImage :: "json \<Rightarrow> js_error + string" where
  "placeholderImage prompt =
     (case prompt of
        JStr s \<Rightarrow> Inr (''https://picsum.photos/seed/'' @ remove_spaces s @ ''/1280/720'')
      | _ \<Rightarrow> Inl TypeError)"

text \<open>\<open>imagen prompt\<close> is the image model's answer: the encoded bytes, or \<open>None\<close> when it throws.\<close>

definition generateImage :: "bool \<Rightarrow> (json \<Rightarrow> string option) \<Rightarrow> json \<Rightarrow> js_error + string" where
  "generateImage ai imagen prompt =
     (if \<not> ai then placeholderImage prompt
      else case imagen prompt of
             Some base64ImageBytes \<Rightarrow> Inr (''data:image/jpeg;base64,'' @ base64ImageBytes)
           | None \<Rightarrow> placeholderImage prompt)"

section \<open>The persistence service over the browser store\<close>

text \<open>
  The number of characters of \<^verbatim>\<open>JSON.stringify(v)\<close>. In a string the quotation mark,
  the backslash and the control characters are written as escapes; an array and an
  object take their brackets, the separating commas and, for a property, the colon.
\<close>

definition char_length :: "char \<Rightarrow> nat" where
  "char_length c =
     (if c \<in> set [CHR 0x22, CHR 0x5C, CHR 0x08, CHR 0x09, CHR 0x0A, CHR 0x0C, CHR 0x0D] then 2
      else if (of_char c :: nat) < 32 then 6
      else 1)"

definition string_length :: "string \<Rightarrow> nat" where
  "string_length s = 2 + sum_list (map char_length s)"

fun json_length :: "json \<Rightarrow> nat" where
  "json_length JNull = 4"
| "json_length (JBool b) = (if b then 4 else 5)"
| "json_length (JNum t) = length t"
| "json_length (JStr s) = string_length s"
| "json_length (JArr xs) = 2 + sum_list (map json_length xs) + (length xs - 1)"
| "json_length (JObj kvs) =
     2 + sum_list (map (\<lambda>(k, v). string_length k + 1 + json_length v) kvs) + (length kvs - 1)"

text \<open>
  A stored item is a string; the service only ever looks at it through \<^verbatim>\<open>JSON.parse\<close>,
  so an item is either text that does not parse or the value it parses to. Writing
  \<^verbatim>\<open>JSON.stringify(v)\<close> stores the document \<open>v\<close>. The store has room for a limited
  number of characters: \<open>quota\<close> is the room there is for the value of the item that is
  written (what the whole store may hold, less the key and the other items, which the
  operations below leave alone). A write whose text is longer than that raises, and
  leaves the store as it was.
\<close>

datatype stored = Unparsable | Document json

record localStorage =
  items :: "string \<rightharpoonup> stored"
  quota :: nat

definition setItem :: "localStorage \<Rightarrow> string \<Rightarrow> json \<Rightarrow> js_error + localStorage" where
  "setItem st k v =
     (if quota st < json_length v then Inl QuotaExceededError
      else Inr (st\<lparr>items := (items st)(k \<mapsto> Document v)\<rparr>))"

text \<open>
  \<^verbatim>\<open>p && typeof p === 'object' && p.id\<close>: of the values with type \<^verbatim>\<open>'object'\<close> an
  array has no \<^verbatim>\<open>id\<close> and \<^verbatim>\<open>null\<close> is falsy, which leaves the objects with a truthy
  \<^verbatim>\<open>id\<close>.
\<close>

fun keepEntry :: "json \<Rightarrow> bool" where
  "keepEntry (JObj kvs) = (case map_of kvs ''id'' of Some v \<Rightarrow> truthy v | None \<Rightarrow> False)"
| "keepEntry _ = False"

definition cleanPresentation :: "json \<Rightarrow> json" where
  "cleanPresentation p =
     JObj
      ((case get_prop p ''id'' of Some v \<Rightarrow> [(''id'', v)] | None \<Rightarrow> []) @
       [(''userId'', or_else (get_prop p ''userId'') (JStr ''unknown_user'')),
        (''title'', or_else (get_prop p ''title'') (JStr ''Untitled Presentation'')),
        (''slides'', (case get_prop p ''slides'' of Some (JArr xs) \<Rightarrow> JArr xs | _ \<Rightarrow> JArr [])),
        (''theme'', or_else (get_prop p ''theme'') (JStr ''Default'')),
        (''createdAt'', or_else (get_prop p ''createdAt'') (JStr ''1970-01-01T00:00:00.000Z''))])"

definition getAndCleanPresentations :: "localStorage \<Rightarrow> json list" where
  "getAndCleanPresentations st =
     (case items st ''presentations'' of
        None \<Rightarrow> []
      | Some Unparsable \<Rightarrow> []
      | Some (Document allPresentations) \<Rightarrow>
          (case allPresentations of
             JArr ps \<Rightarrow> map cleanPresentation (filter keepEntry ps)
           | _ \<Rightarrow> []))"

text \<open>
  \<^verbatim>\<open>a === b\<close> between a property of a freshly parsed record and a property of the
  argument: primitives compare by value, two absent properties are equal, and an object
  or array out of the parser is never the argument's object.
\<close>

fun is_primitive :: "json \<Rightarrow> bool" where
  "is_primitive (JArr xs) = False"
| "is_primitive (JObj kvs) = False"
| "is_primitive _ = True"

definition strict_eq :: "json option \<Rightarrow> json option \<Rightarrow> bool" where
  "strict_eq a b =
     (case (a, b) of
        (None, None) \<Rightarrow> True
      | (Some x, Some y) \<Rightarrow> is_primitive x \<and> x = y
      | _ \<Rightarrow> False)"

fun findIndex :: "('a \<Rightarrow> bool) \<Rightarrow> 'a list \<Rightarrow> nat option" where
  "findIndex P [] = None"
| "findIndex P (x # xs) = (if P x then Some 0 else map_option Suc (findIndex P xs))"

text \<open>\<open>None\<close> is the \<^verbatim>\<open>null\<close> of a presentation that is not there.\<close>

definition getPresentation :: "localStorage \<Rightarrow> string \<Rightarrow> json option" where
  "getPresentation st ident =
     find (\<lambda>p. get_prop p ''id'' = Some (JStr ident)) (getAndCleanPresentations st)"

text \<open>
  The list that \<^verbatim>\<open>savePresentation\<close> writes: the presentation takes the place of the
  first record with its \<^verbatim>\<open>id\<close>, or is pushed at the end when there is none.
\<close>

definition replaceOrPush :: "json list \<Rightarrow> json \<Rightarrow> json list" where
  "replaceOrPush allPresentations presentation =
     (let existingIndex =
            findIndex (\<lambda>p. strict_eq (get_prop p ''id'') (get_prop presentation ''id''))
              allPresentations
      in case existingIndex of
           Some i \<Rightarrow> allPresentations[i := presentation]
         | None \<Rightarrow> allPresentations @ [presentation])"

definition savePresentation :: "localStorage \<Rightarrow> json \<Rightarrow> localStorage \<times> json" where
  "savePresentation st presentation =
     (let allPresentations = replaceOrPush (getAndCleanPresentations st) presentation
      in case setItem st ''presentations'' (JArr allPresentations) of
           Inl e \<Rightarrow> (st, presentation)
         | Inr st' \<Rightarrow> (st', presentation))"


text \<open>The editor's load: read the presentation, then clean its slides.\<close>

definition loadPresentation :: "(nat \<Rightarrow> nat) \<Rightarrow> localStorage \<Rightarrow> string \<Rightarrow> json option" where
  "loadPresentation clock st presentationId =
     (case getPresentation st presentationId of
        None \<Rightarrow> None
      | Some data \<Rightarrow> normalize clock data)"

section \<open>The creation page: the generation pipeline\<close>

datatype ContentSource = SrcAi | SrcText | SrcFile

datatype ImageSource = ImgAi | ImgGoogle | ImgNone

text \<open>
  An uploaded file: its name, its MIME type, and what reading it as text gives
  (\<open>None\<close> when the reader reports an error).
\<close>

record upload =
  file_name :: string
  file_type :: string
  file_text :: "string option"

text \<open>The state of the form.\<close>

record form =
  title :: string
  source :: ContentSource
  textContent :: string
  uploadedFile :: "upload option"
  numSlides :: int
  selectedTheme :: string
  imageSource :: ImageSource

text \<open>
  What the page takes from outside while it generates: the signed-in user, whether the
  generation client exists, the answers of the text model (per request text and slide
  count) and of the image model, the outcome of the photo search for a sanitised query
  and a page size (what \<^verbatim>\<open>data.results.map(...)\<close> evaluates to, \<open>None\<close> when the
  request, the reading of the body or the mapping throws), and the clock:
  \<^verbatim>\<open>Date.now()\<close> in the callback of each slide and when the presentation is put
  together, and the ISO rendering of the current time.
\<close>

record env =
  userId :: string
  ai :: bool
  topicResponse :: "string \<Rightarrow> int \<Rightarrow> gen_response"
  textResponse :: "string \<Rightarrow> int \<Rightarrow> gen_response"
  imagen :: "json \<Rightarrow> string option"
  unsplash :: "string \<Rightarrow> int \<Rightarrow> json option"
  slideClock :: "nat \<Rightarrow> nat"
  dateNow :: nat
  isoNow :: string

text \<open>The calls that leave the page, in the order they are made.\<close>

datatype call =
    ReadFile string
  | GenerateSlides string int
  | GenerateSlidesFromText string int
  | GenerateImage json
  | SearchPhotos string int
  | SavePresentation

text \<open>
  What a run of the handler leaves behind: the message shown to the user (empty when
  there is none), the calls made, and the presentation handed to the editor.
\<close>

record outcome =
  error :: string
  calls :: "call list"
  generated :: "json option"

datatype 'a attempt = ValidationError string | Thrown "call list" | Done 'a

text \<open>
  The \<^verbatim>\<open>switch (source)\<close>: the text to generate from, the working title, and the calls
  made so far.
\<close>

definition resolveSource :: "form \<Rightarrow> (string \<times> string \<times> call list) attempt" where
  "resolveSource f =
     (let presentationTitle = trim (title f)
      in case source f of
           SrcText \<Rightarrow>
             if trim (textContent f) = [] then
               ValidationError ''Please provide content in the text area.''
             else
               Done (textContent f,
                     if presentationTitle = [] then take 50 (textContent f) @ ''...''
                     else presentationTitle,
                     [])
         | SrcFile \<Rightarrow>
             (case uploadedFile f of
                None \<Rightarrow> ValidationError ''Please upload a file.''
              | Some u \<Rightarrow>
                  let t = (if presentationTitle = [] then strip_extension (file_name u)
                           else presentationTitle)
                  in if file_type u = ''text/plain'' then
                       (case file_text u of
                          None \<Rightarrow> Thrown [ReadFile (file_name u)]
                        | Some txt \<Rightarrow> Done (txt, t, [ReadFile (file_name u)]))
                     else
                       Done (''This presentation is about the contents of the file named: ''
                               @ file_name u, t, []))
         | SrcAi \<Rightarrow> Done (title f, presentationTitle, []))"

text \<open>\<^verbatim>\<open>content.title || presentationTitle\<close>\<close>

definition imagePromptOf :: "string \<Rightarrow> json \<Rightarrow> json" where
  "imagePromptOf presentationTitle content =
     or_else (get_prop content ''title'') (JStr presentationTitle)"

text \<open>
  The callback that turns one generated entry into a slide. Reading \<^verbatim>\<open>content.title\<close>
  of \<^verbatim>\<open>null\<close> throws; so does a failed image step, and so does the building of the
  search query from a prompt that is not a string (only a string has \<^verbatim>\<open>replace\<close>), before
  any request is made. The result is the calls made and the slide, \<open>None\<close> when the
  callback throws.
\<close>

definition buildSlide :: "env \<Rightarrow> form \<Rightarrow> string \<Rightarrow> json \<Rightarrow> nat \<Rightarrow> call list \<times> json option" where
  "buildSlide e f presentationTitle content index =
     (if content = JNull then ([], None)
      else
        let slideId = show_nat (slideClock e index) @ ''-'' @ show_nat index;
            imagePrompt = imagePromptOf presentationTitle content;
            slide = (\<lambda>background.
              JObj [(''id'', JStr slideId),
                    (''title'', or_else (get_prop content ''title'') (JStr ''Untitled Slide'')),
                    (''content'', or_else (get_prop content ''content'') (JArr [])),
                    (''background'', background),
                    (''titleStyle'', JObj defaultTitleStyle),
                    (''contentStyle'', JObj defaultContentStyle)])
        in case imageSource f of
             ImgNone \<Rightarrow>
               ([], Some (slide (JObj [(''type'', JStr ''color''), (''value'', JStr ''#FFFFFF'')])))
           | ImgAi \<Rightarrow>
               (case generateImage (ai e) (imagen e) imagePrompt of
                  Inl err \<Rightarrow> ([GenerateImage imagePrompt], None)
                | Inr imageUrl \<Rightarrow>
                    ([GenerateImage imagePrompt],
                     Some (slide (JObj [(''type'', JStr ''image''), (''value'', JStr imageUrl)]))))
           | ImgGoogle \<Rightarrow>
               (case imagePrompt of
                  JStr s \<Rightarrow>
                    (let sanitizedQuery = remove_spaces s
                     in case unsplash e sanitizedQuery (numSlides f + 10) of
                          None \<Rightarrow> ([SearchPhotos sanitizedQuery (numSlides f + 10)], None)
                        | Some imageUrl \<Rightarrow>
                            ([SearchPhotos sanitizedQuery (numSlides f + 10)],
                             Some (slide (JObj [(''type'', JStr ''image''),
                                                (''value'', imageUrl)]))))
                | _ \<Rightarrow> ([], None)))"

text \<open>
  \<^verbatim>\<open>Promise.all(slideContents.map(...))\<close>: every callback is started, the slides come
  back in the order of the entries, and one callback that throws makes the whole fail.
\<close>

fun buildSlides :: "env \<Rightarrow> form \<Rightarrow> string \<Rightarrow> nat \<Rightarrow> json list \<Rightarrow> call list \<times> json list option" where
  "buildSlides e f presentationTitle index [] = ([], Some [])"
| "buildSlides e f presentationTitle index (content # rest) =
     (let (cs, slide) = buildSlide e f presentationTitle content index;
          (cs', slides) = buildSlides e f presentationTitle (Suc index) rest
      in (cs @ cs',
          case slide of
            None \<Rightarrow> None
          | Some s \<Rightarrow> (case slides of None \<Rightarrow> None | Some ss \<Rightarrow> Some (s # ss))))"

definition slideContentsFor :: "env \<Rightarrow> form \<Rightarrow> string \<Rightarrow> json list" where
  "slideContentsFor e f contentForGeneration =
     (if source f = SrcAi then
        generatePresentationSlides (ai e)
          (topicResponse e contentForGeneration (numSlides f)) contentForGeneration (numSlides f)
      else
        generateSlidesFromText (ai e)
          (textResponse e contentForGeneration (numSlides f)) contentForGeneration (numSlides f))"

definition generationFailed :: "call list \<Rightarrow> outcome" where
  "generationFailed cs =
     \<lparr>error = ''Failed to generate presentation. Please try again.'', calls = cs,
      generated = None\<rparr>"

definition assemble :: "env \<Rightarrow> form \<Rightarrow> string \<Rightarrow> json list \<Rightarrow> json" where
  "assemble e f presentationTitle slides =
     JObj [(''id'', JStr (show_nat (dateNow e))),
           (''userId'', JStr (userId e)),
           (''title'', JStr presentationTitle),
           (''slides'', JArr slides),
           (''theme'', JStr (selectedTheme f)),
           (''createdAt'', JStr (isoNow e))]"

text \<open>
  The part of the handler after the source has been resolved: generate the entries, map
  them to slides, put the presentation together and save it.
\<close>

definition generateAndSave ::
    "env \<Rightarrow> form \<Rightarrow> localStorage \<Rightarrow> string \<Rightarrow> string \<Rightarrow> call list \<Rightarrow> outcome \<times> localStorage" where
  "generateAndSave e f st contentForGeneration presentationTitle cs =
     (let slideContents = slideContentsFor e f contentForGeneration;
          cs1 = cs @ [if source f = SrcAi
                      then GenerateSlides contentForGeneration (numSlides f)
                      else GenerateSlidesFromText contentForGeneration (numSlides f)]
      in (case buildSlides e f presentationTitle 0 slideContents of
            (cs2, None) \<Rightarrow> (generationFailed (cs1 @ cs2), st)
          | (cs2, Some slides) \<Rightarrow>
              (let newPresentation = assemble e f presentationTitle slides;
                   (st', savedPresentation) = savePresentation st newPresentation
               in (\<lparr>error = [], calls = cs1 @ cs2 @ [SavePresentation],
                    generated = Some savedPresentation\<rparr>, st'))))"

definition handleGenerate :: "env \<Rightarrow> form \<Rightarrow> localStorage \<Rightarrow> outcome \<times> localStorage" where
  "handleGenerate e f st =
     (if trim (title f) = [] \<and> source f = SrcAi then
        (\<lparr>error = ''Presentation Title is required for AI generation.'', calls = [],
          generated = None\<rparr>, st)
      else
        (case resolveSource f of
           ValidationError msg \<Rightarrow> (\<lparr>error = msg, calls = [], generated = None\<rparr>, st)
         | Thrown cs \<Rightarrow> (generationFailed cs, st)
         | Done (contentForGeneration, presentationTitle, cs) \<Rightarrow>
             generateAndSave e f st contentForGeneration presentationTitle cs))"

section \<open>The editor: operations on the presentation being edited\<close>

text \<open>
  The state of the editor that the handlers below read and write. The console collects
  the lines the search providers log, the alerts the messages shown to the user.
\<close>

record editor =
  presentation :: "json option"
  currentSlideIndex :: nat
  gallerySearchQuery :: string
  galleryImages :: "string list"
  isSearching :: bool
  isGalleryOpen :: bool
  console :: "string list"
  alerts :: "string list"

text \<open>
  \<^verbatim>\<open>p.slides\<close> of the presentation in the editor. The loader always puts an array there;
  for anything else the array operations of the handlers throw.
\<close>

definition slides_of :: "json \<Rightarrow> js_error + json list" where
  "slides_of p = (case get_prop p ''slides'' of Some (JArr xs) \<Rightarrow> Inr xs | _ \<Rightarrow> Inl TypeError)"

definition updateSlide :: "editor \<Rightarrow> nat \<Rightarrow> (string \<times> json) list \<Rightarrow> js_error + editor" where
  "updateSlide st slideIndex updatedProps =
     (case presentation st of
        None \<Rightarrow> Inr st
      | Some p \<Rightarrow>
          (case slides_of p of
             Inl err \<Rightarrow> Inl err
           | Inr slides \<Rightarrow>
               let newSlides =
                     (if slideIndex < length slides \<and> truthy (slides ! slideIndex) then
                        slides[slideIndex :=
                          JObj (spread (spread [] (own_props (slides ! slideIndex))) updatedProps)]
                      else slides)
               in Inr (st\<lparr>presentation :=
                         Some (JObj (set_prop ''slides'' (JArr newSlides)
                                       (spread [] (own_props p))))\<rparr>)))"

definition changeBackground :: "editor \<Rightarrow> json \<Rightarrow> js_error + editor" where
  "changeBackground st newBackground =
     updateSlide st (currentSlideIndex st) [(''background'', newBackground)]"

text \<open>
  The three background type buttons, shown for the current slide. \<open>render\<close> is the
  conversion of a value to a string inside a template literal.
\<close>

definition solidBackground :: json where
  "solidBackground = JObj [(''type'', JStr ''color''), (''value'', JStr ''#ffffff'')]"

definition gradientBackground :: json where
  "gradientBackground =
     JObj [(''type'', JStr ''gradient''), (''color1'', JStr ''#ffffff''),
           (''color2'', JStr ''#a0aec0''), (''angle'', JNum ''90'')]"

definition imageBackground :: "(json option \<Rightarrow> string) \<Rightarrow> json \<Rightarrow> json" where
  "imageBackground render currentSlide =
     JObj [(''type'', JStr ''image''),
           (''value'',
              JStr (''https://picsum.photos/seed/'' @ render (get_prop currentSlide ''id'')
                      @ ''/1280/720'')),
           (''opacity'', JNum ''1''), (''blur'', JNum ''0'')]"

datatype BackgroundType = Solid | Gradient | Image

definition backgroundTypeButton ::
    "(json option \<Rightarrow> string) \<Rightarrow> BackgroundType \<Rightarrow> editor \<Rightarrow> json \<Rightarrow> js_error + editor" where
  "backgroundTypeButton render b st currentSlide =
     (case b of
        Solid \<Rightarrow> changeBackground st solidBackground
      | Gradient \<Rightarrow> changeBackground st gradientBackground
      | Image \<Rightarrow> changeBackground st (imageBackground render currentSlide))"

definition deleteSlide :: "editor \<Rightarrow> js_error + editor" where
  "deleteSlide st =
     (case presentation st of
        None \<Rightarrow> Inr st
      | Some p \<Rightarrow>
          (case slides_of p of
             Inl err \<Rightarrow> Inl err
           | Inr slides \<Rightarrow>
               if length slides \<le> 1 then Inr st
               else
                 let updatedSlides =
                       map snd (filter (\<lambda>(index, s). index \<noteq> currentSlideIndex st)
                                  (enumerate 0 slides))
                 in Inr (st\<lparr>presentation :=
                             Some (JObj (set_prop ''slides'' (JArr updatedSlides)
                                           (spread [] (own_props p)))),
                           currentSlideIndex :=
                             min (currentSlideIndex st) (length updatedSlides - 1)\<rparr>)))"

section \<open>The editor: image search with fallback\<close>

text \<open>
  What the request to the primary search service comes to: it fails, it answers with a
  status that is not ok, or it answers with the thumbnails of \<^verbatim>\<open>data.images_results\<close>
  (none when the field is missing).
\<close>

datatype http_reply = RequestFails | NotOk nat | Thumbnails "string list"

text \<open>A provider returns the lines it logs and either throws or returns addresses.\<close>

type_synonym provider = "string \<Rightarrow> string list \<times> (js_error + string list)"

definition searchWithSerpApi :: "(string \<Rightarrow> http_reply) \<Rightarrow> provider" where
  "searchWithSerpApi serp query =
     (''Trying primary image provider: SerpApi...'' # [],
      case serp query of
        RequestFails \<Rightarrow> Inl NetworkError
      | NotOk status \<Rightarrow> Inl (Error (''SerpApi request failed with status '' @ show_nat status))
      | Thumbnails imageUrls \<Rightarrow>
          if length imageUrls = 0 then Inl (Error ''SerpApi returned no results.'')
          else Inr imageUrls)"

definition searchWithFallback :: provider where
  "searchWithFallback query =
     (''Trying fallback image provider...'' # [],
      let sanitizedQuery = remove_spaces query
      in Inr (map (\<lambda>i. ''https://picsum.photos/seed/'' @ sanitizedQuery @ show_nat i @ ''/400/300'')
                [0..<12]))"

text \<open>
  The \<^verbatim>\<open>for (const provider of searchProviders)\<close> loop: the console lines written, and
  the addresses of the first provider that returns a non-empty list, if there is one.
\<close>

fun tryProviders :: "provider list \<Rightarrow> string \<Rightarrow> string list \<times> string list option" where
  "tryProviders [] query = ([], None)"
| "tryProviders (provider # rest) query =
     (case provider query of
        (logged, Inr imageUrls) \<Rightarrow>
          if length imageUrls > 0 then (logged, Some imageUrls)
          else (let (logged', r) = tryProviders rest query in (logged @ logged', r))
      | (logged, Inl err) \<Rightarrow>
          (let (logged', r) = tryProviders rest query
           in (logged @ [''An image provider failed:''] @ logged', r)))"

definition searchImages :: "provider list \<Rightarrow> editor \<Rightarrow> editor" where
  "searchImages searchProviders st =
     (if trim (gallerySearchQuery st) = [] then st
      else
        case tryProviders searchProviders (gallerySearchQuery st) of
          (logged, Some imageUrls) \<Rightarrow>
            st\<lparr>galleryImages := imageUrls, isSearching := False,
               console := console st @ logged\<rparr>
        | (logged, None) \<Rightarrow>
            st\<lparr>galleryImages := [], isSearching := False,
               console := console st @ logged @ [''All image providers failed.''],
               alerts := alerts st @ [''Could not fetch images. Please try again later.'']\<rparr>)"

definition handleImageSearch :: "(string \<Rightarrow> http_reply) \<Rightarrow> editor \<Rightarrow> editor" where
  "handleImageSearch serp st = searchImages [searchWithSerpApi serp, searchWithFallback] st"

section \<open>Notions the statements use\<close>

text \<open>An entry or slide whose title is a non-empty string.\<close>

definition titled :: "json \<Rightarrow> bool" where
  "titled s = (case get_prop s ''title'' of Some (JStr t) \<Rightarrow> t \<noteq> [] | _ \<Rightarrow> False)"

text \<open>
  The photo search answers for an entry: the prompt of the entry is a string and the
  search for its sanitised form, with the page size the page asks for, does not throw.
\<close>

definition searchAnswers :: "env \<Rightarrow> form \<Rightarrow> string \<Rightarrow> json \<Rightarrow> bool" where
  "searchAnswers e f presentationTitle content =
     (case imagePromptOf presentationTitle content of
        JStr s \<Rightarrow> unsplash e (remove_spaces s) (numSlides f + 10) \<noteq> None
      | _ \<Rightarrow> False)"

text \<open>The slides of a presentation value, none when the property is not an array.\<close>

definition slide_list :: "json \<Rightarrow> json list" where
  "slide_list p = (case get_prop p ''slides'' of Some (JArr xs) \<Rightarrow> xs | _ \<Rightarrow> [])"

text \<open>A provider run that throws or returns no address.\<close>

definition yields_nothing :: "string list \<times> (js_error + string list) \<Rightarrow> bool" where
  "yields_nothing r = (case snd r of Inl err \<Rightarrow> True | Inr imageUrls \<Rightarrow> imageUrls = [])"

text \<open>
  A record as the persistence service hands it out: it passes the service's filter and
  is left as it is by the service's cleaning.
\<close>

definition settled :: "json \<Rightarrow> bool" where
  "settled c \<longleftrightarrow> keepEntry c \<and> cleanPresentation c = c"


text \<open>Sample inputs for the concrete instances below.\<close>

definition sample_env :: env where
  "sample_env =
     \<lparr>userId = ''u1'', ai = True,
      topicResponse = (\<lambda>topic n.
        Parsed (JArr [JObj [(''title'', JStr ''A''), (''content'', JArr [JStr ''a1''])],
                      JObj [(''title'', JStr ''B''), (''content'', JArr [JStr ''b1''])]])),
      textResponse = (\<lambda>txt n. CallFails),
      imagen = (\<lambda>prompt. None),
      unsplash = (\<lambda>query n. None),
      slideClock = (\<lambda>index. 1000),
      dateNow = 2000,
      isoNow = ''2024-01-01T00:00:00.000Z''\<rparr>"

definition sample_form :: form where
  "sample_form =
     \<lparr>title = ''Cats'', source = SrcAi, textContent = [], uploadedFile = None,
      numSlides = 5, selectedTheme = ''Default'', imageSource = ImgNone\<rparr>"

definition empty_store :: localStorage where
  "empty_store = \<lparr>items = Map.empty, quota = 5000000\<rparr>"

text \<open>
  A presentation as the creation page saves it with generated images (the image
  background has no opacity and no blur yet), a second presentation, and a store that
  holds both.
\<close>

definition sample_presentation :: json where
  "sample_presentation =
     JObj [(''id'', JStr ''p1''), (''userId'', JStr ''u1''), (''title'', JStr ''Cats''),
           (''slides'',
              JArr [JObj [(''id'', JStr ''s1''), (''title'', JStr ''A''),
                          (''content'', JArr [JStr ''a1'']),
                          (''background'',
                             JObj [(''type'', JStr ''image''), (''value'', JStr ''u'')]),
                          (''titleStyle'', JObj defaultTitleStyle),
                          (''contentStyle'', JObj defaultContentStyle)]]),
           (''theme'', JStr ''Default''),
           (''createdAt'', JStr ''2024-01-01T00:00:00.000Z'')]"

definition other_presentation :: json where
  "other_presentation =
     JObj [(''id'', JStr ''p2''), (''userId'', JStr ''u1''), (''title'', JStr ''Dogs''),
           (''slides'', JArr []), (''theme'', JStr ''Black''),
           (''createdAt'', JStr ''2024-01-02T00:00:00.000Z'')]"

definition sample_store :: localStorage where
  "sample_store =
     \<lparr>items = [''presentations'' \<mapsto> Document (JArr [sample_presentation, other_presentation])],
      quota = 5000000\<rparr>"

text \<open>
  A slide with a gradient background and a slide with a colour background, and an editor
  that holds the given slides with the cursor at the given index.
\<close>

definition gradient_slide :: json where
  "gradient_slide =
     JObj [(''id'', JStr ''s1''), (''title'', JStr ''A''), (''content'', JArr [JStr ''a1'']),
           (''background'',
              JObj [(''type'', JStr ''gradient''), (''color1'', JStr ''#000000''),
                    (''color2'', JStr ''#ffffff''), (''angle'', JNum ''45'')]),
           (''titleStyle'', JObj defaultTitleStyle),
           (''contentStyle'', JObj defaultContentStyle)]"

definition colour_slide :: json where
  "colour_slide =
     JObj [(''id'', JStr ''s2''), (''title'', JStr ''B''), (''content'', JArr [JStr ''b1'']),
           (''background'', JObj [(''type'', JStr ''color''), (''value'', JStr ''#ffffff'')]),
           (''titleStyle'', JObj defaultTitleStyle),
           (''contentStyle'', JObj defaultContentStyle)]"

definition editing :: "json list \<Rightarrow> nat \<Rightarrow> editor" where
  "editing slides cursor =
     \<lparr>presentation = Some (JObj [(''id'', JStr ''p1''), (''slides'', JArr slides)]),
      currentSlideIndex = cursor, gallerySearchQuery = ''red cats'', galleryImages = [],
      isSearching = False, isGalleryOpen = True, console = [], alerts = []\<rparr>"

section \<open>Properties of property lists\<close>

lemma set_prop_triv: "map_of al k = Some v \<Longrightarrow> set_prop k v al = al"
  by (induct al) auto

lemma map_of_set_prop: "map_of (set_prop k v al) = (map_of al)(k \<mapsto> v)"
  by (induct al) (auto simp add: fun_eq_iff)

lemma keys_set_prop:
  "map fst (set_prop k v al) = (if k \<in> set (map fst al) then map fst al else map fst al @ [k])"
  by (induct al) simp_all

lemma set_prop_fresh: "k \<notin> fst ` set al \<Longrightarrow> set_prop k v al = al @ [(k, v)]"
  by (induct al) auto

lemma spread_fresh:
  "distinct (map fst b) \<Longrightarrow> fst ` set a \<inter> fst ` set b = {} \<Longrightarrow> spread a b = a @ b"
proof (induction b arbitrary: a)
  case Nil
  then show ?case by simp
next
  case (Cons p b)
  obtain k v where p: "p = (k, v)" by (cases p)
  have "set_prop k v a = a @ [(k, v)]" using Cons.prems p by (intro set_prop_fresh) auto
  moreover have "spread (a @ [(k, v)]) b = (a @ [(k, v)]) @ b"
    using Cons.prems p by (intro Cons.IH) auto
  ultimately show ?case using p by simp
qed

lemma spread_head: "fst h \<notin> fst ` set b \<Longrightarrow> spread (h # a) b = h # spread a b"
  by (induction b arbitrary: a h) auto

lemma spread_same_keys:
  "distinct (map fst m) \<Longrightarrow> map fst a = map fst m \<Longrightarrow> spread a m = m"
proof (induction m arbitrary: a)
  case Nil
  then show ?case by simp
next
  case (Cons p m)
  obtain k v where p: "p = (k, v)" by (cases p)
  from Cons.prems obtain w a' where a: "a = (k, w) # a'" and a': "map fst a' = map fst m"
    using p by (cases a) auto
  have "spread a (p # m) = spread ((k, v) # a') m" using a p by simp
  also have "\<dots> = (k, v) # spread a' m" using Cons.prems p by (intro spread_head) auto
  also have "spread a' m = m" using Cons.prems a' by (intro Cons.IH) auto
  finally show ?case using p by simp
qed

lemma spread_append: "spread a (b @ c) = spread (spread a b) c"
  by (induction b arbitrary: a) auto

lemma distinct_spread: "distinct (map fst a) \<Longrightarrow> distinct (map fst (spread a b))"
  by (induction b arbitrary: a) (auto simp: keys_set_prop)

lemma keys_spread_prefix: "\<exists>e. map fst (spread a b) = map fst a @ e"
proof (induction b arbitrary: a)
  case Nil
  then show ?case by simp
next
  case (Cons p b)
  obtain k v where p: "p = (k, v)" by (cases p)
  from Cons.IH [of "set_prop k v a"] obtain e
    where "map fst (spread (set_prop k v a) b) = map fst (set_prop k v a) @ e" by blast
  then show ?case using p by (auto simp: keys_set_prop)
qed

lemma spread_prefix_keys:
  assumes "distinct (map fst m)" and "map fst m = map fst d @ e"
  shows "spread d m = m"
proof -
  let ?n = "length d"
  have m: "m = take ?n m @ drop ?n m" by simp
  have k1: "map fst (take ?n m) = map fst d"
    using assms(2) by (simp add: take_map [symmetric])
  have d1: "distinct (map fst (take ?n m))" and d2: "distinct (map fst (drop ?n m))"
    using assms(1) by (simp_all add: take_map [symmetric] drop_map [symmetric])
  have disj: "fst ` set (take ?n m) \<inter> fst ` set (drop ?n m) = {}"
    using assms(1) m by (metis distinct_append map_append set_map)
  have "spread d m = spread (spread d (take ?n m)) (drop ?n m)"
    using spread_append [of d "take ?n m" "drop ?n m"] by simp
  also have "spread d (take ?n m) = take ?n m"
    using d1 k1 by (intro spread_same_keys) auto
  also have "spread (take ?n m) (drop ?n m) = take ?n m @ drop ?n m"
    using d2 disj by (intro spread_fresh)
  finally show ?thesis by simp
qed

lemma spread_idem: "distinct (map fst d) \<Longrightarrow> spread d (spread d x) = spread d x"
  using spread_prefix_keys distinct_spread keys_spread_prefix by metis

lemma spread_empty_distinct: "distinct (map fst m) \<Longrightarrow> spread [] m = m"
  using spread_prefix_keys [of m "[]" "map fst m"] by simp

lemma or_else_truthy: "truthy d \<Longrightarrow> truthy (or_else a d)"
  by (cases a) auto

lemma nullish_or_Some: "v \<noteq> JNull \<Longrightarrow> nullish_or (Some v) d = v"
  by (cases v) simp_all

lemma nullish_or_not_null: "d \<noteq> JNull \<Longrightarrow> nullish_or a d \<noteq> JNull"
  by (cases "(a, d)" rule: nullish_or.cases) simp_all

lemma nullish_or_idem: "d \<noteq> JNull \<Longrightarrow> nullish_or (Some (nullish_or a d)) d' = nullish_or a d"
  by (simp add: nullish_or_Some nullish_or_not_null)

lemma ensure_background_props_idem:
  "ensure_background_props (ensure_background_props b) = ensure_background_props b"
proof (cases b)
  case (JObj kvs)
  show ?thesis
    unfolding JObj
    by (simp add: Let_def map_of_set_prop set_prop_triv or_else_truthy nullish_or_idem)
qed simp_all

lemma pick_background_cases:
  "pick_background s = defaultBg \<or>
   (\<exists>kvs t. pick_background s = JObj kvs \<and> map_of kvs ''type'' = Some (JStr t))"
proof (cases "get_prop s ''background''")
  case None
  then show ?thesis by (simp add: pick_background_def)
next
  case (Some b)
  show ?thesis
  proof (cases b)
    case (JObj kvs)
    then show ?thesis using Some
      by (cases "map_of kvs ''type''" rule: typeof_string.cases)
         (auto simp: pick_background_def)
  qed (use Some in \<open>simp_all add: pick_background_def\<close>)
qed

lemma ensure_keeps_type:
  "map_of kvs ''type'' = Some (JStr t) \<Longrightarrow>
   \<exists>kvs'. ensure_background_props (JObj kvs) = JObj kvs' \<and> map_of kvs' ''type'' = Some (JStr t)"
  by (simp add: Let_def map_of_set_prop)

lemma cleaned_background:
  "\<exists>kvs t. ensure_background_props (pick_background s) = JObj kvs \<and>
           map_of kvs ''type'' = Some (JStr t)"
proof -
  from pick_background_cases [of s] obtain kvs t
    where "pick_background s = JObj kvs" and "map_of kvs ''type'' = Some (JStr t)"
    by (auto simp: defaultBg_def)
  then show ?thesis using ensure_keeps_type [of kvs t] by metis
qed

lemma pick_background_cleaned:
  assumes "get_prop s' ''background'' = Some (ensure_background_props (pick_background s))"
  shows "pick_background s' = ensure_background_props (pick_background s)"
proof -
  obtain kvs t where "ensure_background_props (pick_background s) = JObj kvs"
    and "map_of kvs ''type'' = Some (JStr t)"
    using cleaned_background by blast
  then show ?thesis using assms by (simp add: pick_background_def)
qed

lemma cleanSlide_idem: "cleanSlide now' (cleanSlide now s i) j = cleanSlide now s i"
proof -
  let ?c = "cleanSlide now s i"
  have bg: "pick_background ?c = ensure_background_props (pick_background s)"
    by (rule pick_background_cleaned) (simp add: cleanSlide_def)
  have id: "or_else (get_prop ?c ''id'') d = or_else (get_prop s ''id'') (JStr (show_nat now @ ''-'' @ show_nat i))" for d
    by (simp add: cleanSlide_def or_else_truthy)
  have ti: "or_else (get_prop ?c ''title'') d = or_else (get_prop s ''title'') (JStr ''Untitled Slide'')" for d
    by (simp add: cleanSlide_def or_else_truthy)
  have co: "(case get_prop ?c ''content'' of Some (JArr xs) \<Rightarrow> JArr xs | _ \<Rightarrow> JArr [])
          = (case get_prop s ''content'' of Some (JArr xs) \<Rightarrow> JArr xs | _ \<Rightarrow> JArr [])"
    by (simp add: cleanSlide_def split: option.splits json.splits)
  have ts: "own_props (or_else (get_prop ?c ''titleStyle'') (JObj [])) = spread defaultTitleStyle
                  (own_props (or_else (get_prop s ''titleStyle'') (JObj [])))"
    by (simp add: cleanSlide_def)
  have cs: "own_props (or_else (get_prop ?c ''contentStyle'') (JObj [])) = spread defaultContentStyle
                  (own_props (or_else (get_prop s ''contentStyle'') (JObj [])))"
    by (simp add: cleanSlide_def)
  have d1: "distinct (map fst defaultTitleStyle)" by (simp add: defaultTitleStyle_def)
  have d2: "distinct (map fst defaultContentStyle)" by (simp add: defaultContentStyle_def)
  have "cleanSlide now' ?c j =
      JObj
      [(''id'', or_else (get_prop s ''id'') (JStr (show_nat now @ ''-'' @ show_nat i))),
       (''title'', or_else (get_prop s ''title'') (JStr ''Untitled Slide'')),
       (''content'',
          (case get_prop s ''content'' of Some (JArr xs) \<Rightarrow> JArr xs | _ \<Rightarrow> JArr [])),
       (''background'', ensure_background_props (pick_background s)),
       (''titleStyle'',
          JObj (spread defaultTitleStyle
                  (own_props (or_else (get_prop s ''titleStyle'') (JObj []))))),
       (''contentStyle'',
          JObj (spread defaultContentStyle
                  (own_props (or_else (get_prop s ''contentStyle'') (JObj [])))))]"
    unfolding cleanSlide_def [of now' ?c j] bg id ti co ts cs ensure_background_props_idem
      spread_idem [OF d1] spread_idem [OF d2] ..
  then show ?thesis by (simp add: cleanSlide_def)
qed

lemma cleanSlidesFrom_idem:
  "cleanSlidesFrom clock' j (cleanSlidesFrom clock i ss) = cleanSlidesFrom clock i ss"
  by (induction ss arbitrary: i j) (simp_all add: cleanSlide_idem)

lemma cleanedSlides_idem:
  "cleanedSlides clock' (cleanedSlides clock ss) = cleanedSlides clock ss"
  by (simp add: cleanedSlides_def cleanSlidesFrom_idem)

section \<open>The loader's cleaning, applied twice\<close>

text \<open>
  Claim C1. Cleaning is idempotent. For every raw value \<open>x\<close> read for a presentation,
  cleaning the result of a cleaning again gives back the same structure, whatever the
  clock shows in either pass; a falsy \<open>x\<close> (such as \<^verbatim>\<open>null\<close>) is "not found" both times.
  The same holds for the list of slides on its own.
\<close>

theorem normalize_idempotent:
  "(case normalize clock x of None \<Rightarrow> None | Some p \<Rightarrow> normalize clock' p) = normalize clock x
   \<and> cleanedSlides clock' (cleanedSlides clock slides) = cleanedSlides clock slides"
proof (cases "truthy x")
  case False
  then show ?thesis by (simp add: normalize_def cleanedSlides_idem)
next
  case True
  define xs where "xs = (case get_prop x ''slides'' of Some (JArr xs) \<Rightarrow> xs | _ \<Rightarrow> [])"
  define kvs where
    "kvs = set_prop ''slides'' (JArr (cleanedSlides clock xs)) (spread [] (own_props x))"
  have n: "normalize clock x = Some (JObj kvs)"
    using True by (simp add: normalize_def xs_def kvs_def)
  have dist: "distinct (map fst kvs)"
    unfolding kvs_def using distinct_spread [of "[]" "own_props x"] by (simp add: keys_set_prop)
  have sl: "map_of kvs ''slides'' = Some (JArr (cleanedSlides clock xs))"
    by (simp add: kvs_def map_of_set_prop)
  have "normalize clock' (JObj kvs) = Some (JObj kvs)"
    by (simp add: normalize_def sl cleanedSlides_idem spread_empty_distinct [OF dist]
          set_prop_triv [OF sl])
  then show ?thesis using n by (simp add: cleanedSlides_idem)
qed

text \<open>
  The theorem at a presentation whose slide list holds \<^verbatim>\<open>null\<close> and an image slide
  without opacity and blur.
\<close>

theorem normalize_idempotent_witness:
  "(case normalize (\<lambda>i. 5)
           (JObj [(''id'', JStr ''p1''),
                  (''slides'',
                     JArr [JNull,
                           JObj [(''background'',
                                    JObj [(''type'', JStr ''image''), (''value'', JStr ''u'')])]])])
    of None \<Rightarrow> None | Some p \<Rightarrow> normalize (\<lambda>i. 7) p)
   = Some (JObj [(''id'', JStr ''p1''),
                 (''slides'',
                    JArr [JObj [(''id'', JStr ''5-0''), (''title'', JStr ''Untitled Slide''),
                                (''content'', JArr []),
                                (''background'',
                                   JObj [(''type'', JStr ''color''), (''value'', JStr ''#ffffff'')]),
                                (''titleStyle'', JObj defaultTitleStyle),
                                (''contentStyle'', JObj defaultContentStyle)],
                          JObj [(''id'', JStr ''5-1''), (''title'', JStr ''Untitled Slide''),
                                (''content'', JArr []),
                                (''background'',
                                   JObj [(''type'', JStr ''image''), (''value'', JStr ''u''),
                                         (''opacity'', JNum ''1''), (''blur'', JNum ''0'')]),
                                (''titleStyle'', JObj defaultTitleStyle),
                                (''contentStyle'', JObj defaultContentStyle)]])])"
  using normalize_idempotent
    [where clock = "\<lambda>i. 5" and clock' = "\<lambda>i. 7" and x =
        "JObj [(''id'', JStr ''p1''),
               (''slides'',
                  JArr [JNull,
                        JObj [(''background'',
                                 JObj [(''type'', JStr ''image''), (''value'', JStr ''u'')])]])]"]
  by (simp add: normalize_def cleanedSlides_def cleanSlide_def pick_background_def defaultBg_def
        show_nat.simps defaultTitleStyle_def defaultContentStyle_def)

section \<open>Background defaults\<close>

text \<open>
  An image background keeps an opacity and a blur of 0, and gets 1 and 0 when they are
  missing.
\<close>

lemma image_zero_kept:
  "ensure_background_props
     (JObj [(''type'', JStr ''image''), (''value'', JStr u), (''opacity'', JNum ''0''),
            (''blur'', JNum ''0'')])
   = JObj [(''type'', JStr ''image''), (''value'', JStr u), (''opacity'', JNum ''0''),
           (''blur'', JNum ''0'')]"
  by simp

lemma image_defaults_filled:
  "ensure_background_props (JObj [(''type'', JStr ''image''), (''value'', JStr u)])
   = JObj [(''type'', JStr ''image''), (''value'', JStr u), (''opacity'', JNum ''1''),
           (''blur'', JNum ''0'')]"
  by simp

lemma gradient_defaults_filled:
  "ensure_background_props (JObj [(''type'', JStr ''gradient'')])
   = JObj [(''type'', JStr ''gradient''), (''color1'', JStr ''#ffffff''),
           (''color2'', JStr ''#bbbbbb''), (''angle'', JNum ''90'')]"
  by simp

text \<open>
  Claim C6. The claim says that a gradient's angle that is present, such as 0, is kept.
  The loader fills the angle with \<^verbatim>\<open>||\<close>, so a stored angle of 0 comes back as 90
  (the opacity and the blur of an image are filled with \<^verbatim>\<open>??\<close> and do keep a 0).
\<close>

theorem gradient_angle_zero_becomes_90:
  "get_prop
     (cleanSlide now
        (JObj [(''background'',
                  JObj [(''type'', JStr ''gradient''), (''color1'', JStr ''#000000''),
                        (''color2'', JStr ''#ffffff''), (''angle'', JNum ''0'')])])
        index)
     ''background''
   = Some (JObj [(''type'', JStr ''gradient''), (''color1'', JStr ''#000000''),
                 (''color2'', JStr ''#ffffff''), (''angle'', JNum ''90'')])"
  by (simp add: cleanSlide_def pick_background_def)

section \<open>The generation pipeline\<close>

lemma pushLoop_length:
  "length (pushLoop mk i n acc) = length acc + nat (n + 1 - i)"
proof (induction mk i n acc rule: pushLoop.induct)
  case (1 mk i n acc)
  show ?case
  proof (cases "i \<le> n")
    case True
    then show ?thesis using 1 by (subst pushLoop.simps) (simp add: nat_diff_distrib')
  next
    case False
    then show ?thesis by (subst pushLoop.simps) simp
  qed
qed

lemma pushLoop_set:
  "set (pushLoop mk i n acc) = set acc \<union> mk ` {i..n}"
proof (induction mk i n acc rule: pushLoop.induct)
  case (1 mk i n acc)
  show ?case
  proof (cases "i \<le> n")
    case True
    have "{i..n} = insert i {i + 1..n}" using True by auto
    then show ?thesis using 1 True by (subst pushLoop.simps) auto
  next
    case False
    then show ?thesis by (subst pushLoop.simps) simp
  qed
qed

lemma getMockSlides_length: "1 \<le> n \<Longrightarrow> length (getMockSlides topic n) = nat n"
  by (simp add: getMockSlides_def pushLoop_length) 

lemma getMockSlidesFromText_length: "1 \<le> n \<Longrightarrow> length (getMockSlidesFromText txt n) = nat n"
  by (simp add: getMockSlidesFromText_def pushLoop_length)

lemma getMockSlides_titled: "s \<in> set (getMockSlides topic n) \<Longrightarrow> titled s"
  by (auto simp: getMockSlides_def pushLoop_set titled_def mockSlide_def)

lemma getMockSlidesFromText_titled: "s \<in> set (getMockSlidesFromText txt n) \<Longrightarrow> titled s"
  by (auto simp: getMockSlidesFromText_def pushLoop_set titled_def mockSlideFromText_def)

lemma titledE: 
  assumes "titled c" obtains kvs t where "c = JObj kvs" "map_of kvs ''title'' = Some (JStr t)" "t \<noteq> []"
  using assms by (cases c) (auto simp: titled_def split: option.splits json.splits)

lemma titled_prompt: "titled c \<Longrightarrow> \<exists>t. imagePromptOf pt c = JStr t \<and> t \<noteq> [] \<and> c \<noteq> JNull
     \<and> or_else (get_prop c ''title'') (JStr ''Untitled Slide'') = JStr t"
  by (erule titledE) (simp add: imagePromptOf_def)

lemma buildSlide_titled:
  assumes "titled c" and "imageSource f = ImgGoogle \<longrightarrow> searchAnswers e f pt c"
  shows "\<exists>cs s. buildSlide e f pt c i = (cs, Some s) \<and> titled s"
proof -
  from titled_prompt [OF assms(1), of pt] obtain t where
    t: "imagePromptOf pt c = JStr t" "t \<noteq> []" "c \<noteq> JNull"
       "or_else (get_prop c ''title'') (JStr ''Untitled Slide'') = JStr t"
    by blast
  have img: "\<exists>u. generateImage (ai e) (imagen e) (JStr t) = Inr u"
    by (simp add: generateImage_def placeholderImage_def split: option.splits)
  show ?thesis
  proof (cases "imageSource f")
    case ImgAi
    from img obtain u where "generateImage (ai e) (imagen e) (JStr t) = Inr u" by blast
    then show ?thesis using t ImgAi by (simp add: buildSlide_def titled_def Let_def)
  next
    case ImgGoogle
    with assms(2) t obtain u where "unsplash e (remove_spaces t) (numSlides f + 10) = Some u"
      by (auto simp: searchAnswers_def)
    then show ?thesis using t ImgGoogle by (simp add: buildSlide_def titled_def Let_def)
  next
    case ImgNone
    then show ?thesis using t by (simp add: buildSlide_def titled_def Let_def)
  qed
qed

lemma buildSlides_titled:
  assumes "\<forall>c\<in>set cs. titled c"
    and "imageSource f = ImgGoogle \<longrightarrow> (\<forall>c\<in>set cs. searchAnswers e f pt c)"
  shows "\<exists>made slides. buildSlides e f pt i cs = (made, Some slides) \<and>
           length slides = length cs \<and> (\<forall>s\<in>set slides. titled s)"
  using assms
proof (induction cs arbitrary: i)
  case Nil
  then show ?case by simp
next
  case (Cons c cs)
  from Cons.prems have "titled c" and "imageSource f = ImgGoogle \<longrightarrow> searchAnswers e f pt c"
    by simp_all
  from buildSlide_titled [OF this] obtain k s
    where b: "buildSlide e f pt c i = (k, Some s)" "titled s" by blast
  from Cons.IH [of "Suc i"] Cons.prems obtain made slides
    where r: "buildSlides e f pt (Suc i) cs = (made, Some slides)"
      "length slides = length cs" "\<forall>s\<in>set slides. titled s"
    by auto
  show ?case using b r by simp
qed

lemma buildSlide_search_throws:
  assumes "imageSource f = ImgGoogle" and "\<not> searchAnswers e f pt c"
  shows "snd (buildSlide e f pt c i) = None"
  using assms
  by (auto simp: buildSlide_def searchAnswers_def Let_def split: json.splits option.splits)

lemma buildSlides_search_throws:
  assumes "imageSource f = ImgGoogle" and "\<exists>c\<in>set cs. \<not> searchAnswers e f pt c"
  shows "snd (buildSlides e f pt i cs) = None"
  using assms(2)
proof (induction cs arbitrary: i)
  case Nil
  then show ?case by simp
next
  case (Cons c cs)
  show ?case
  proof (cases "searchAnswers e f pt c")
    case True
    with Cons.prems have "\<exists>c\<in>set cs. \<not> searchAnswers e f pt c" by simp
    from Cons.IH [OF this, of "Suc i"] show ?thesis
      by (simp add: split_beta split: option.splits)
  next
    case False
    from buildSlide_search_throws [OF assms(1) False, of i] show ?thesis
      by (simp add: split_beta)
  qed
qed

lemma generateAndSave_generated:
  assumes "buildSlides e f pt 0 (slideContentsFor e f content) = (made, Some slides)"
  shows "generated (fst (generateAndSave e f st content pt cs)) = Some (assemble e f pt slides)"
  using assms by (simp add: generateAndSave_def savePresentation_def Let_def split: sum.splits)

lemma handleGenerate_resolved:
  assumes "resolveSource f = Done (content, pt, cs)"
    and "\<not> (trim (title f) = [] \<and> source f = SrcAi)"
  shows "handleGenerate e f st = generateAndSave e f st content pt cs"
  using assms by (auto simp: handleGenerate_def)

lemma slide_list_assemble: "slide_list (assemble e f pt slides) = slides"
  by (simp add: slide_list_def assemble_def)

lemma sample_trim: "trim ''Cats'' = ''Cats''"
  by (simp add: trim_def is_space_def)


lemma sample_resolved: "resolveSource sample_form = Done (''Cats'', ''Cats'', [])"
  by (simp add: resolveSource_def sample_form_def sample_trim)

lemma sample_title_given: "\<not> (trim (title sample_form) = [] \<and> source sample_form = SrcAi)"
  by (simp add: sample_form_def sample_trim)


lemma generateAndSave_failed:
  assumes "snd (buildSlides e f pt 0 (slideContentsFor e f content)) = None"
  shows "generated (fst (generateAndSave e f st content pt cs)) = None
       \<and> error (fst (generateAndSave e f st content pt cs))
           = ''Failed to generate presentation. Please try again.''"
  using assms
  by (cases "buildSlides e f pt 0 (slideContentsFor e f content)")
     (simp add: generateAndSave_def generationFailed_def Let_def)

lemma slideContentsFor_fallback:
  assumes "\<not> ai e \<or>
           (if source f = SrcAi then topicResponse e content (numSlides f)
            else textResponse e content (numSlides f)) \<in> {CallFails, BadJson}"
  shows "slideContentsFor e f content =
           (if source f = SrcAi then getMockSlides content (numSlides f)
            else getMockSlidesFromText content (numSlides f))"
  using assms
  by (auto simp: slideContentsFor_def generatePresentationSlides_def generateSlidesFromText_def)

lemma slideContentsFor_parsed:
  assumes "ai e"
    and "(if source f = SrcAi then topicResponse e content (numSlides f)
          else textResponse e content (numSlides f)) = Parsed j"
  shows "slideContentsFor e f content = (case j of JArr xs \<Rightarrow> xs | _ \<Rightarrow> [])"
  using assms
  by (auto simp: slideContentsFor_def generatePresentationSlides_def generateSlidesFromText_def
      split: if_splits)

lemma mock_length:
  "1 \<le> n \<Longrightarrow>
   length (if b then getMockSlides content n else getMockSlidesFromText content n) = nat n"
  by (simp add: getMockSlides_length getMockSlidesFromText_length)

lemma mock_titled:
  "c \<in> set (if b then getMockSlides content n else getMockSlidesFromText content n) \<Longrightarrow> titled c"
  by (auto simp: getMockSlides_titled getMockSlidesFromText_titled split: if_splits)

lemma sample_form_fields:
  "source sample_form = SrcAi" "imageSource sample_form = ImgNone" "numSlides sample_form = 5"
  "title sample_form = ''Cats''"
  by (simp_all add: sample_form_def)

lemma sample_env_fields:
  "ai sample_env" "unsplash sample_env = (\<lambda>query n. None)"
  by (simp_all add: sample_env_def)

lemma sample_google_resolved:
  "resolveSource (sample_form\<lparr>imageSource := ImgGoogle\<rparr>) = Done (''Cats'', ''Cats'', [])"
  by (simp add: resolveSource_def sample_form_def sample_trim)

lemma sample_google_title_given:
  "\<not> (trim (title (sample_form\<lparr>imageSource := ImgGoogle\<rparr>)) = []
      \<and> source (sample_form\<lparr>imageSource := ImgGoogle\<rparr>) = SrcAi)"
  by (simp add: sample_form_def sample_trim)

lemma search_never_answers:
  "unsplash e = (\<lambda>query n. None) \<Longrightarrow> \<not> searchAnswers e f pt c"
  by (simp add: searchAnswers_def split: json.splits)

lemma search_always_answers:
  "unsplash e = (\<lambda>query n. Some u) \<Longrightarrow> titled c \<Longrightarrow> searchAnswers e f pt c"
  using titled_prompt [of c pt] by (auto simp: searchAnswers_def)

lemma getMockSlides_nonempty: "getMockSlides topic n \<noteq> []"
  by (simp add: getMockSlides_def pushLoop_set flip: set_empty)

lemma pipeline_search_throws:
  assumes "resolveSource f = Done (content, pt, cs)"
    and "\<not> (trim (title f) = [] \<and> source f = SrcAi)"
    and "imageSource f = ImgGoogle"
    and "\<exists>c\<in>set (slideContentsFor e f content). \<not> searchAnswers e f pt c"
  shows "generated (fst (handleGenerate e f st)) = None"
  using generateAndSave_failed [of e f pt content st cs]
    buildSlides_search_throws [OF assms(3,4), of 0] handleGenerate_resolved [OF assms(1,2), of e st]
  by simp


text \<open>
  Claim C2, as the code has it, for a slide count of at least 1. When no client is
  configured, the generator call is rejected or its answer is not JSON text, the service
  returns the local mock entries: exactly as many as slides were asked for, each with a
  non-empty title. The pipeline then hands over a presentation with that many slides,
  each with a non-empty title, in the image modes "ai" and "none", and in the mode
  "google" when the photo search answers for every entry; in the mode "google" with a
  search that throws for some entry the generation fails with the general message and
  no presentation. When the answer parses, there is no fallback: an array is used as it
  is, and any other value gives no entries, so that a presentation without slides is
  handed over.
\<close>

theorem fallback_on_generator_failure:
  assumes "1 \<le> numSlides f"
    and "resolveSource f = Done (content, pt, cs)"
    and "\<not> (trim (title f) = [] \<and> source f = SrcAi)"
    and "answer = (if source f = SrcAi then topicResponse e content (numSlides f)
                   else textResponse e content (numSlides f))"
    and "mock = (if source f = SrcAi then getMockSlides content (numSlides f)
                 else getMockSlidesFromText content (numSlides f))"
  shows "(\<not> ai e \<or> answer \<in> {CallFails, BadJson} \<longrightarrow>
            slideContentsFor e f content = mock
          \<and> length mock = nat (numSlides f)
          \<and> (\<forall>c\<in>set mock. titled c)
          \<and> ((imageSource f = ImgGoogle \<longrightarrow> (\<forall>c\<in>set mock. searchAnswers e f pt c)) \<longrightarrow>
                (\<exists>p. generated (fst (handleGenerate e f st)) = Some p
                    \<and> length (slide_list p) = nat (numSlides f)
                    \<and> (\<forall>s\<in>set (slide_list p). titled s)))
          \<and> (imageSource f = ImgGoogle \<and> (\<exists>c\<in>set mock. \<not> searchAnswers e f pt c) \<longrightarrow>
                generated (fst (handleGenerate e f st)) = None
              \<and> error (fst (handleGenerate e f st))
                  = ''Failed to generate presentation. Please try again.''))
       \<and> (\<forall>j. ai e \<and> answer = Parsed j \<longrightarrow>
            slideContentsFor e f content = (case j of JArr xs \<Rightarrow> xs | _ \<Rightarrow> [])
          \<and> ((\<forall>xs. j \<noteq> JArr xs) \<longrightarrow>
                generated (fst (handleGenerate e f st)) = Some (assemble e f pt [])
              \<and> slide_list (assemble e f pt []) = []))"
proof -
  let ?sc = "slideContentsFor e f content"
  note h = handleGenerate_resolved [OF assms(2,3), of e st]
  have fallback: "?sc = mock
          \<and> length mock = nat (numSlides f)
          \<and> (\<forall>c\<in>set mock. titled c)
          \<and> ((imageSource f = ImgGoogle \<longrightarrow> (\<forall>c\<in>set mock. searchAnswers e f pt c)) \<longrightarrow>
                (\<exists>p. generated (fst (handleGenerate e f st)) = Some p
                    \<and> length (slide_list p) = nat (numSlides f)
                    \<and> (\<forall>s\<in>set (slide_list p). titled s)))
          \<and> (imageSource f = ImgGoogle \<and> (\<exists>c\<in>set mock. \<not> searchAnswers e f pt c) \<longrightarrow>
                generated (fst (handleGenerate e f st)) = None
              \<and> error (fst (handleGenerate e f st))
                  = ''Failed to generate presentation. Please try again.'')"
    if fails: "\<not> ai e \<or> answer \<in> {CallFails, BadJson}"
  proof -
    have sc: "?sc = mock"
      using fails unfolding assms(4,5) by (rule slideContentsFor_fallback)
    have len: "length mock = nat (numSlides f)"
      unfolding assms(5) using assms(1) by (rule mock_length)
    have tit: "\<forall>c\<in>set mock. titled c"
      unfolding assms(5) using mock_titled by blast
    have ok: "\<exists>p. generated (fst (handleGenerate e f st)) = Some p
                    \<and> length (slide_list p) = nat (numSlides f)
                    \<and> (\<forall>s\<in>set (slide_list p). titled s)"
      if "imageSource f = ImgGoogle \<longrightarrow> (\<forall>c\<in>set mock. searchAnswers e f pt c)"
    proof -
      from buildSlides_titled [OF tit that, of 0] obtain made slides
        where b: "buildSlides e f pt 0 mock = (made, Some slides)"
          and l: "length slides = length mock" and t: "\<forall>s\<in>set slides. titled s"
        by blast
      have "generated (fst (handleGenerate e f st)) = Some (assemble e f pt slides)"
        using h generateAndSave_generated [of e f pt content made slides st cs] b sc by simp
      then show ?thesis using l len t by (simp add: slide_list_assemble)
    qed
    have ko: "generated (fst (handleGenerate e f st)) = None
              \<and> error (fst (handleGenerate e f st))
                  = ''Failed to generate presentation. Please try again.''"
      if "imageSource f = ImgGoogle" and "\<exists>c\<in>set mock. \<not> searchAnswers e f pt c"
      using generateAndSave_failed [of e f pt content st cs]
        buildSlides_search_throws [OF that, of 0] h sc by simp
    show ?thesis using sc len tit ok ko by blast
  qed
  have parsed: "?sc = (case j of JArr xs \<Rightarrow> xs | _ \<Rightarrow> [])
          \<and> ((\<forall>xs. j \<noteq> JArr xs) \<longrightarrow>
                generated (fst (handleGenerate e f st)) = Some (assemble e f pt [])
              \<and> slide_list (assemble e f pt []) = [])"
    if "ai e" and "answer = Parsed j" for j
  proof -
    have sc: "?sc = (case j of JArr xs \<Rightarrow> xs | _ \<Rightarrow> [])"
      using that unfolding assms(4) by (rule slideContentsFor_parsed)
    have "generated (fst (handleGenerate e f st)) = Some (assemble e f pt [])"
      if "\<forall>xs. j \<noteq> JArr xs"
    proof -
      from that have "?sc = []" unfolding sc by (cases j) simp_all
      then have "buildSlides e f pt 0 ?sc = ([], Some [])" by simp
      from generateAndSave_generated [OF this, of st cs] h show ?thesis by simp
    qed
    then show ?thesis using sc by (simp add: slide_list_assemble)
  qed
  show ?thesis using fallback parsed by blast
qed



text \<open>
  The theorem for the sample form when the call is rejected (without images, with a
  photo search that answers, with one that throws), when the answer is an object, and
  when it is the array of the two entries A and B.
\<close>

theorem fallback_on_generator_failure_witness:
  "(\<exists>p. generated (fst (handleGenerate (sample_env\<lparr>topicResponse := \<lambda>topic n. CallFails\<rparr>)
                          sample_form empty_store)) = Some p
        \<and> length (slide_list p) = 5 \<and> list_all titled (slide_list p))
   \<and> (\<exists>p. generated (fst (handleGenerate
                            (sample_env\<lparr>topicResponse := \<lambda>topic n. CallFails,
                                        unsplash := \<lambda>query n. Some (JArr [])\<rparr>)
                            (sample_form\<lparr>imageSource := ImgGoogle\<rparr>) empty_store)) = Some p
        \<and> length (slide_list p) = 5 \<and> list_all titled (slide_list p))
   \<and> generated (fst (handleGenerate (sample_env\<lparr>topicResponse := \<lambda>topic n. CallFails\<rparr>)
                        (sample_form\<lparr>imageSource := ImgGoogle\<rparr>) empty_store)) = None
   \<and> slideContentsFor (sample_env\<lparr>topicResponse := \<lambda>topic n. Parsed (JObj [])\<rparr>)
        sample_form ''Cats'' = []
   \<and> generated (fst (handleGenerate (sample_env\<lparr>topicResponse := \<lambda>topic n. Parsed (JObj [])\<rparr>)
                        sample_form empty_store))
       = Some (assemble (sample_env\<lparr>topicResponse := \<lambda>topic n. Parsed (JObj [])\<rparr>) sample_form
                 ''Cats'' [])
   \<and> slideContentsFor sample_env sample_form ''Cats''
       = [JObj [(''title'', JStr ''A''), (''content'', JArr [JStr ''a1''])],
          JObj [(''title'', JStr ''B''), (''content'', JArr [JStr ''b1''])]]"
proof -
  let ?down = "sample_env\<lparr>topicResponse := \<lambda>topic n. CallFails\<rparr>"
  let ?found = "sample_env\<lparr>topicResponse := \<lambda>topic n. CallFails,
                           unsplash := \<lambda>query n. Some (JArr [])\<rparr>"
  let ?odd = "sample_env\<lparr>topicResponse := \<lambda>topic n. Parsed (JObj [])\<rparr>"
  let ?google = "sample_form\<lparr>imageSource := ImgGoogle\<rparr>"
  let ?mock = "getMockSlides ''Cats'' 5"
  have n: "1 \<le> numSlides sample_form" and ng: "1 \<le> numSlides ?google"
    by (simp_all add: sample_form_fields)
  have w1: "\<exists>p. generated (fst (handleGenerate ?down sample_form empty_store)) = Some p
        \<and> length (slide_list p) = 5 \<and> list_all titled (slide_list p)"
    using fallback_on_generator_failure
            [OF n sample_resolved sample_title_given refl refl, of ?down empty_store]
    by (simp add: sample_form_fields list_all_iff)
  have answers: "\<forall>c\<in>set ?mock. searchAnswers ?found ?google ''Cats'' c"
    by (auto intro!: search_always_answers [where u = "JArr []"] getMockSlides_titled)
  have w2: "\<exists>p. generated (fst (handleGenerate ?found ?google empty_store)) = Some p
        \<and> length (slide_list p) = 5 \<and> list_all titled (slide_list p)"
    using fallback_on_generator_failure
            [OF ng sample_google_resolved sample_google_title_given refl refl,
             of ?found empty_store] answers
    by (simp add: sample_form_fields list_all_iff)
  have never: "\<not> searchAnswers ?down ?google ''Cats'' c" for c
    by (rule search_never_answers) (simp add: sample_env_fields)
  have "\<exists>c. c \<in> set ?mock"
    using getMockSlides_nonempty [of "''Cats''" 5] by (cases ?mock) auto
  with never have throws: "\<exists>c\<in>set ?mock. \<not> searchAnswers ?down ?google ''Cats'' c"
    by blast
  have w3: "generated (fst (handleGenerate ?down ?google empty_store)) = None"
    using fallback_on_generator_failure
            [OF ng sample_google_resolved sample_google_title_given refl refl,
             of ?down empty_store] throws
    by (simp add: sample_form_fields)
  have w4: "slideContentsFor ?odd sample_form ''Cats'' = []
          \<and> generated (fst (handleGenerate ?odd sample_form empty_store))
              = Some (assemble ?odd sample_form ''Cats'' [])"
    using fallback_on_generator_failure
            [OF n sample_resolved sample_title_given refl refl, of ?odd empty_store]
    by (simp add: sample_form_fields sample_env_fields)
  have w5: "slideContentsFor sample_env sample_form ''Cats''
       = [JObj [(''title'', JStr ''A''), (''content'', JArr [JStr ''a1''])],
          JObj [(''title'', JStr ''B''), (''content'', JArr [JStr ''b1''])]]"
    using fallback_on_generator_failure
            [OF n sample_resolved sample_title_given refl refl, of sample_env empty_store]
    by (simp add: sample_form_fields sample_env_fields) (simp add: sample_env_def)
  show ?thesis using w1 w2 w3 w4 w5 by blast
qed


text \<open>
  The claim promises the fallback, and as many slides as asked for, also when the answer
  is malformed and whatever the image mode. An answer that is JSON but not an array is
  answered by an empty list: with five slides asked for, the presentation is saved with
  none. And with the call rejected and the mock entries in place, a photo search that
  throws ends the generation without a presentation.
\<close>

theorem non_array_answer_gives_no_slides:
  "generated (fst (handleGenerate (sample_env\<lparr>topicResponse := \<lambda>topic n. Parsed (JObj [])\<rparr>)
                     sample_form empty_store))
   = Some (JObj [(''id'', JStr ''2000''), (''userId'', JStr ''u1''), (''title'', JStr ''Cats''),
                 (''slides'', JArr []), (''theme'', JStr ''Default''),
                 (''createdAt'', JStr ''2024-01-01T00:00:00.000Z'')])
   \<and> numSlides sample_form = 5
   \<and> generated (fst (handleGenerate (sample_env\<lparr>topicResponse := \<lambda>topic n. CallFails\<rparr>)
                        (sample_form\<lparr>imageSource := ImgGoogle\<rparr>) empty_store)) = None"
proof -
  let ?down = "sample_env\<lparr>topicResponse := \<lambda>topic n. CallFails\<rparr>"
  let ?google = "sample_form\<lparr>imageSource := ImgGoogle\<rparr>"
  have a: "generated (fst (handleGenerate (sample_env\<lparr>topicResponse := \<lambda>topic n. Parsed (JObj [])\<rparr>)
                     sample_form empty_store))
   = Some (JObj [(''id'', JStr ''2000''), (''userId'', JStr ''u1''), (''title'', JStr ''Cats''),
                 (''slides'', JArr []), (''theme'', JStr ''Default''),
                 (''createdAt'', JStr ''2024-01-01T00:00:00.000Z'')])"
    by (simp add: handleGenerate_def sample_form_def sample_env_def resolveSource_def sample_trim
        generateAndSave_def slideContentsFor_def generatePresentationSlides_def assemble_def
        savePresentation_def Let_def show_nat.simps split: sum.splits)
  have "slideContentsFor ?down ?google ''Cats'' = getMockSlides ''Cats'' 5"
    by (simp add: slideContentsFor_def generatePresentationSlides_def sample_form_def
          sample_env_def)
  moreover have "\<not> searchAnswers ?down ?google ''Cats'' c" for c
    by (rule search_never_answers) (simp add: sample_env_fields)
  moreover have "\<exists>c. c \<in> set (getMockSlides ''Cats'' 5)"
    using getMockSlides_nonempty [of "''Cats''" 5] by (cases "getMockSlides ''Cats'' 5") auto
  ultimately have "\<exists>c\<in>set (slideContentsFor ?down ?google ''Cats'').
                     \<not> searchAnswers ?down ?google ''Cats'' c"
    by auto
  from pipeline_search_throws [OF sample_google_resolved sample_google_title_given _ this]
  have b: "generated (fst (handleGenerate ?down ?google empty_store)) = None"
    by simp
  show ?thesis using a b by (simp add: sample_form_fields)
qed

text \<open>
  Claim C3. When the input the chosen source needs is missing (a blank title for
  generation from the title, blank text for pasted text, no file for an upload), the
  handler stops with the message for that source, before any call leaves the page, and
  leaves the store as it was.
\<close>

theorem validation_before_any_call:
  assumes "(source f = SrcAi \<and> trim (title f) = [])
         \<or> (source f = SrcText \<and> trim (textContent f) = [])
         \<or> (source f = SrcFile \<and> uploadedFile f = None)"
  shows "handleGenerate e f st =
           (\<lparr>error =
               (case source f of
                  SrcAi \<Rightarrow> ''Presentation Title is required for AI generation.''
                | SrcText \<Rightarrow> ''Please provide content in the text area.''
                | SrcFile \<Rightarrow> ''Please upload a file.''),
             calls = [], generated = None\<rparr>, st)"
  using assms by (cases "source f") (auto simp: handleGenerate_def resolveSource_def)


text \<open>The theorem for one form of each kind.\<close>

theorem validation_before_any_call_witness:
  "handleGenerate sample_env (sample_form\<lparr>title := ''   ''\<rparr>) empty_store =
     (\<lparr>error = ''Presentation Title is required for AI generation.'', calls = [],
       generated = None\<rparr>, empty_store)
   \<and> handleGenerate sample_env (sample_form\<lparr>source := SrcText, textContent := '' ''\<rparr>) empty_store =
     (\<lparr>error = ''Please provide content in the text area.'', calls = [],
       generated = None\<rparr>, empty_store)
   \<and> handleGenerate sample_env (sample_form\<lparr>source := SrcFile\<rparr>) empty_store =
     (\<lparr>error = ''Please upload a file.'', calls = [], generated = None\<rparr>, empty_store)"
  using validation_before_any_call [of "sample_form\<lparr>title := ''   ''\<rparr>" sample_env empty_store]
    validation_before_any_call
      [of "sample_form\<lparr>source := SrcText, textContent := '' ''\<rparr>" sample_env empty_store]
    validation_before_any_call [of "sample_form\<lparr>source := SrcFile\<rparr>" sample_env empty_store]
  by (simp add: sample_form_def trim_def is_space_def)


lemma buildSlide_none:
  "imageSource f = ImgNone \<Longrightarrow> content \<noteq> JNull \<Longrightarrow>
   buildSlide e f pt content i =
     ([], Some (JObj [(''id'', JStr (show_nat (slideClock e i) @ ''-'' @ show_nat i)),
                    (''title'', or_else (get_prop content ''title'') (JStr ''Untitled Slide'')),
                    (''content'', or_else (get_prop content ''content'') (JArr [])),
                    (''background'', JObj [(''type'', JStr ''color''), (''value'', JStr ''#FFFFFF'')]),
                    (''titleStyle'', JObj defaultTitleStyle),
                    (''contentStyle'', JObj defaultContentStyle)]))"
  by (simp add: buildSlide_def)

lemma buildSlides_none:
  "imageSource f = ImgNone \<Longrightarrow> JNull \<notin> set pairs \<Longrightarrow>
   \<exists>slides. buildSlides e f pt i pairs = ([], Some slides) \<and> length slides = length pairs \<and>
     (\<forall>k<length pairs.
        get_prop (slides ! k) ''title'' = Some (or_else (get_prop (pairs ! k) ''title'') (JStr ''Untitled Slide'')) \<and>
        get_prop (slides ! k) ''content'' = Some (or_else (get_prop (pairs ! k) ''content'') (JArr [])) \<and>
        get_prop (slides ! k) ''background'' = Some (JObj [(''type'', JStr ''color''), (''value'', JStr ''#FFFFFF'')]))"
proof (induction pairs arbitrary: i)
  case Nil
  then show ?case by simp
next
  case (Cons c pairs)
  from Cons.prems have c: "c \<noteq> JNull" and rest: "JNull \<notin> set pairs" by auto
  from Cons.IH [OF Cons.prems(1) rest, of "Suc i"] obtain slides where
    s: "buildSlides e f pt (Suc i) pairs = ([], Some slides)" "length slides = length pairs"
    and props: "\<forall>k<length pairs.
        get_prop (slides ! k) ''title'' = Some (or_else (get_prop (pairs ! k) ''title'') (JStr ''Untitled Slide'')) \<and>
        get_prop (slides ! k) ''content'' = Some (or_else (get_prop (pairs ! k) ''content'') (JArr [])) \<and>
        get_prop (slides ! k) ''background'' = Some (JObj [(''type'', JStr ''color''), (''value'', JStr ''#FFFFFF'')])"
    by blast
  show ?case
    using s props by (auto simp: buildSlide_none [OF Cons.prems(1) c] nth_Cons split: nat.splits)
qed


text \<open>
  Claim C4, as the code has it. Without images, the presentation handed over has one
  slide per generated entry, in the order of the entries: slide \<open>k\<close> carries the title
  and the content of entry \<open>k\<close> (or the defaults when they are falsy), on the colour
  background the page writes as \<^verbatim>\<open>#FFFFFF\<close>.
\<close>

theorem slides_follow_generator_order:
  assumes "resolveSource f = Done (content, pt, cs)"
    and "\<not> (trim (title f) = [] \<and> source f = SrcAi)"
    and "imageSource f = ImgNone"
    and "slideContentsFor e f content = pairs"
    and "JNull \<notin> set pairs"
  shows "\<exists>p. generated (fst (handleGenerate e f st)) = Some p
            \<and> length (slide_list p) = length pairs
            \<and> (\<forall>k<length pairs.
                 get_prop (slide_list p ! k) ''title''
                   = Some (or_else (get_prop (pairs ! k) ''title'') (JStr ''Untitled Slide''))
               \<and> get_prop (slide_list p ! k) ''content''
                   = Some (or_else (get_prop (pairs ! k) ''content'') (JArr []))
               \<and> get_prop (slide_list p ! k) ''background''
                   = Some (JObj [(''type'', JStr ''color''), (''value'', JStr ''#FFFFFF'')]))"
proof -
  from buildSlides_none [OF assms(3,5), of e pt 0] obtain slides where
    b: "buildSlides e f pt 0 pairs = ([], Some slides)" and l: "length slides = length pairs"
    and props: "\<forall>k<length pairs.
        get_prop (slides ! k) ''title'' = Some (or_else (get_prop (pairs ! k) ''title'') (JStr ''Untitled Slide'')) \<and>
        get_prop (slides ! k) ''content'' = Some (or_else (get_prop (pairs ! k) ''content'') (JArr [])) \<and>
        get_prop (slides ! k) ''background'' = Some (JObj [(''type'', JStr ''color''), (''value'', JStr ''#FFFFFF'')])"
    by blast
  have "generated (fst (handleGenerate e f st)) = Some (assemble e f pt slides)"
    using handleGenerate_resolved [OF assms(1,2)] generateAndSave_generated [of e f pt content "[]" slides]
      b assms(4) by simp
  then show ?thesis using l props by (simp add: slide_list_assemble)
qed


text \<open>The theorem for the two entries A and B of the sample environment.\<close>

theorem slides_follow_generator_order_witness:
  "\<exists>p. generated (fst (handleGenerate sample_env sample_form empty_store)) = Some p
      \<and> length (slide_list p) = 2
      \<and> get_prop (slide_list p ! 0) ''title'' = Some (JStr ''A'')
      \<and> get_prop (slide_list p ! 0) ''content'' = Some (JArr [JStr ''a1''])
      \<and> get_prop (slide_list p ! 1) ''title'' = Some (JStr ''B'')
      \<and> get_prop (slide_list p ! 1) ''content'' = Some (JArr [JStr ''b1''])"
proof -
  let ?pairs = "[JObj [(''title'', JStr ''A''), (''content'', JArr [JStr ''a1''])],
                 JObj [(''title'', JStr ''B''), (''content'', JArr [JStr ''b1''])]]"
  have none: "imageSource sample_form = ImgNone"
    by (simp add: sample_form_def)
  have pairs: "slideContentsFor sample_env sample_form ''Cats'' = ?pairs"
    by (simp add: slideContentsFor_def generatePresentationSlides_def sample_env_def
          sample_form_def)
  have nonnull: "JNull \<notin> set ?pairs"
    by simp
  from slides_follow_generator_order
         [OF sample_resolved sample_title_given none pairs nonnull, of empty_store]
  obtain p where p: "generated (fst (handleGenerate sample_env sample_form empty_store)) = Some p"
    "length (slide_list p) = length ?pairs"
    and each: "\<forall>k<length ?pairs.
                 get_prop (slide_list p ! k) ''title''
                   = Some (or_else (get_prop (?pairs ! k) ''title'') (JStr ''Untitled Slide''))
               \<and> get_prop (slide_list p ! k) ''content''
                   = Some (or_else (get_prop (?pairs ! k) ''content'') (JArr []))
               \<and> get_prop (slide_list p ! k) ''background''
                   = Some (JObj [(''type'', JStr ''color''), (''value'', JStr ''#FFFFFF'')])"
    by blast
  from each have "get_prop (slide_list p ! 0) ''title'' = Some (JStr ''A'')"
    and "get_prop (slide_list p ! 0) ''content'' = Some (JArr [JStr ''a1''])"
    and "get_prop (slide_list p ! 1) ''title'' = Some (JStr ''B'')"
    and "get_prop (slide_list p ! 1) ''content'' = Some (JArr [JStr ''b1''])"
    by simp_all
  with p show ?thesis by simp
qed


lemma sample_generated:
  "generated (fst (handleGenerate sample_env sample_form empty_store)) =
     Some (JObj [(''id'', JStr ''2000''), (''userId'', JStr ''u1''), (''title'', JStr ''Cats''),
                 (''slides'',
                    JArr [JObj [(''id'', JStr ''1000-0''), (''title'', JStr ''A''),
                                (''content'', JArr [JStr ''a1'']),
                                (''background'',
                                   JObj [(''type'', JStr ''color''), (''value'', JStr ''#FFFFFF'')]),
                                (''titleStyle'', JObj defaultTitleStyle),
                                (''contentStyle'', JObj defaultContentStyle)],
                          JObj [(''id'', JStr ''1000-1''), (''title'', JStr ''B''),
                                (''content'', JArr [JStr ''b1'']),
                                (''background'',
                                   JObj [(''type'', JStr ''color''), (''value'', JStr ''#FFFFFF'')]),
                                (''titleStyle'', JObj defaultTitleStyle),
                                (''contentStyle'', JObj defaultContentStyle)]]),
                 (''theme'', JStr ''Default''),
                 (''createdAt'', JStr ''2024-01-01T00:00:00.000Z'')])"
  by (simp add: handleGenerate_def sample_form_def sample_env_def resolveSource_def sample_trim
      generateAndSave_def slideContentsFor_def generatePresentationSlides_def assemble_def
      buildSlide_def savePresentation_def Let_def show_nat.simps split: sum.splits)


text \<open>
  The claim names the background value \<^verbatim>\<open>#ffffff\<close>. The page writes the colour in
  upper case, so the stored value is a different string (of the same colour).
\<close>

theorem generated_background_is_upper_case:
  "map (\<lambda>s. get_prop s ''background'')
     (case generated (fst (handleGenerate sample_env sample_form empty_store)) of
        Some p \<Rightarrow> slide_list p | None \<Rightarrow> [])
   = [Some (JObj [(''type'', JStr ''color''), (''value'', JStr ''#FFFFFF'')]),
      Some (JObj [(''type'', JStr ''color''), (''value'', JStr ''#FFFFFF'')])]
   \<and> JObj [(''type'', JStr ''color''), (''value'', JStr ''#FFFFFF'')]
     \<noteq> JObj [(''type'', JStr ''color''), (''value'', JStr ''#ffffff'')]"
  by (simp add: sample_generated slide_list_def)

section \<open>The persistence service\<close>







lemma keepEntry_cleanPresentation:
  "keepEntry q \<Longrightarrow> keepEntry (cleanPresentation q)"
  by (cases q) (auto simp: cleanPresentation_def split: option.splits)

lemma cleanPresentation_idem:
  "keepEntry q \<Longrightarrow> cleanPresentation (cleanPresentation q) = cleanPresentation q"
  by (cases q)
     (auto simp: cleanPresentation_def or_else_truthy split: option.splits json.splits)

lemma settled_cleanPresentation: "keepEntry q \<Longrightarrow> settled (cleanPresentation q)"
  by (simp add: settled_def keepEntry_cleanPresentation cleanPresentation_idem)

lemma getAndClean_settled: "c \<in> set (getAndCleanPresentations st) \<Longrightarrow> settled c"
  by (auto simp: getAndCleanPresentations_def settled_cleanPresentation
      split: option.splits stored.splits json.splits)

lemma clean_settled_list:
  "\<forall>c\<in>set xs. settled c \<Longrightarrow> map cleanPresentation (filter keepEntry xs) = xs"
  by (induction xs) (auto simp: settled_def)

lemma getAndClean_after_write:
  "getAndCleanPresentations (st\<lparr>items := (items st)(''presentations'' \<mapsto> Document (JArr xs))\<rparr>)
     = map cleanPresentation (filter keepEntry xs)"
  by (simp add: getAndCleanPresentations_def)

lemma strict_eq_string: "strict_eq a (Some (JStr s)) \<longleftrightarrow> a = Some (JStr s)"
  by (cases a) (auto simp: strict_eq_def)

lemma find_after_update:
  "findIndex P xs = Some i \<Longrightarrow> P y \<Longrightarrow> find P (xs[i := y]) = Some y"
proof (induction xs arbitrary: i)
  case Nil
  then show ?case by simp
next
  case (Cons x xs)
  then show ?case by (cases "P x") (auto split: nat.splits)
qed

lemma find_after_append:
  "findIndex P xs = None \<Longrightarrow> P y \<Longrightarrow> find P (xs @ [y]) = Some y"
  by (induction xs) (auto split: if_splits)



lemma clean_updated:
  assumes "\<forall>c\<in>set xs. settled c" and "keepEntry p"
  shows "map cleanPresentation (filter keepEntry (xs[i := p])) = xs[i := cleanPresentation p]"
proof -
  have "\<forall>c\<in>set (xs[i := p]). keepEntry c"
    using assms by (auto simp: settled_def dest!: set_update_subset_insert [THEN subsetD])
  then have "filter keepEntry (xs[i := p]) = xs[i := p]" by simp
  moreover have "map cleanPresentation xs = xs"
    using assms(1) by (induction xs) (auto simp: settled_def)
  ultimately show ?thesis by (simp add: map_update)
qed

lemma clean_appended:
  assumes "\<forall>c\<in>set xs. settled c" and "keepEntry p"
  shows "map cleanPresentation (filter keepEntry (xs @ [p])) = xs @ [cleanPresentation p]"
  using assms clean_settled_list [of xs] by simp

lemma id_cleanPresentation: "get_prop (cleanPresentation p) ''id'' = get_prop p ''id''"
  by (simp add: cleanPresentation_def split: option.splits)

lemma sample_presentation_clean: "cleanPresentation sample_presentation = sample_presentation"
  by (simp add: cleanPresentation_def sample_presentation_def)



lemma replaceOrPush_string_id:
  assumes "get_prop p ''id'' = Some (JStr ident)"
  shows "replaceOrPush xs p =
           (case findIndex (\<lambda>c. get_prop c ''id'' = Some (JStr ident)) xs of
              Some i \<Rightarrow> xs[i := p]
            | None \<Rightarrow> xs @ [p])"
  by (simp add: replaceOrPush_def assms strict_eq_string)

lemma save_accepted:
  assumes "json_length (JArr xs) \<le> quota st"
  shows "setItem st ''presentations'' (JArr xs)
           = Inr (st\<lparr>items := (items st)(''presentations'' \<mapsto> Document (JArr xs))\<rparr>)"
  using assms by (simp add: setItem_def)

lemma sample_lengths:
  "json_length sample_presentation = 428"
  "json_length other_presentation = 107"
  by code_simp+

lemma sample_store_fields:
  "items sample_store ''presentations''
     = Some (Document (JArr [sample_presentation, other_presentation]))"
  "quota sample_store = 5000000" "quota empty_store = 5000000"
  "items empty_store ''presentations'' = None"
  by (simp_all add: sample_store_def empty_store_def)

lemma sample_store_read:
  "getAndCleanPresentations sample_store = [sample_presentation, other_presentation]"
  "getAndCleanPresentations empty_store = []"
  by (simp_all add: getAndCleanPresentations_def sample_store_fields cleanPresentation_def
        sample_presentation_def other_presentation_def)

lemma sample_ids:
  "get_prop sample_presentation ''id'' = Some (JStr ''p1'')"
  "get_prop other_presentation ''id'' = Some (JStr ''p2'')"
  by (simp_all add: sample_presentation_def other_presentation_def)



text \<open>
  Claim C5, as the code has it. When the store has room for the write (so that it does
  not raise) and the presentation's \<^verbatim>\<open>id\<close> is a non-empty string, saving and then
  reading by that \<^verbatim>\<open>id\<close> returns the service's own cleaning of the presentation: the
  top-level defaults of \<^verbatim>\<open>_getAndCleanPresentations\<close>, with the slides as they were
  stored. The editor's load of it is the slide cleaning of that record.
\<close>

theorem save_then_get:
  assumes "json_length (JArr (replaceOrPush (getAndCleanPresentations st) p)) \<le> quota st"
    and "get_prop p ''id'' = Some (JStr ident)" and "ident \<noteq> []"
  shows "getPresentation (fst (savePresentation st p)) ident = Some (cleanPresentation p)
       \<and> snd (savePresentation st p) = p
       \<and> loadPresentation clock (fst (savePresentation st p)) ident
           = normalize clock (cleanPresentation p)"
proof -
  let ?all = "getAndCleanPresentations st"
  let ?P = "\<lambda>c. get_prop c ''id'' = Some (JStr ident)"
  have keep: "keepEntry p"
    using assms(2,3) by (cases p) auto
  have settled: "\<forall>c\<in>set ?all. settled c"
    by (simp add: getAndClean_settled)
  have P: "?P (cleanPresentation p)"
    by (simp add: id_cleanPresentation assms(2))
  have written: "fst (savePresentation st p)
            = st\<lparr>items := (items st)(''presentations'' \<mapsto> Document (JArr (replaceOrPush ?all p)))\<rparr>"
    by (simp add: savePresentation_def Let_def save_accepted [OF assms(1)])
  have found: "find ?P (map cleanPresentation (filter keepEntry (replaceOrPush ?all p)))
                 = Some (cleanPresentation p)"
  proof (cases "findIndex ?P ?all")
    case None
    then have "replaceOrPush ?all p = ?all @ [p]"
      by (simp add: replaceOrPush_string_id [OF assms(2)])
    then show ?thesis
      using find_after_append [OF None P]
      by (simp only: clean_appended [OF settled keep])
  next
    case (Some i)
    then have "replaceOrPush ?all p = ?all[i := p]"
      by (simp add: replaceOrPush_string_id [OF assms(2)])
    then show ?thesis
      using find_after_update [OF Some P]
      by (simp only: clean_updated [OF settled keep])
  qed
  have "getPresentation (fst (savePresentation st p)) ident = Some (cleanPresentation p)"
    unfolding written getPresentation_def getAndClean_after_write by (rule found)
  then show ?thesis
    by (simp add: savePresentation_def loadPresentation_def Let_def split: sum.splits)
qed


text \<open>The theorem for the sample presentation, saved as a new record and over an old one.\<close>

theorem save_then_get_witness:
  "getPresentation (fst (savePresentation empty_store sample_presentation)) ''p1''
     = Some sample_presentation
   \<and> getPresentation (fst (savePresentation sample_store sample_presentation)) ''p1''
     = Some sample_presentation"
proof -
  have r1: "replaceOrPush (getAndCleanPresentations empty_store) sample_presentation
              = [sample_presentation]"
    and r2: "replaceOrPush (getAndCleanPresentations sample_store) sample_presentation
              = [sample_presentation, other_presentation]"
    by (simp_all add: sample_store_read replaceOrPush_def sample_ids strict_eq_def)
  have w1: "json_length (JArr (replaceOrPush (getAndCleanPresentations empty_store)
                                sample_presentation)) \<le> quota empty_store"
    and w2: "json_length (JArr (replaceOrPush (getAndCleanPresentations sample_store)
                                  sample_presentation)) \<le> quota sample_store"
    unfolding r1 r2 by (simp_all add: sample_lengths sample_store_fields)
  have n: "''p1'' \<noteq> []"
    by simp
  from save_then_get [OF w1 sample_ids(1) n] save_then_get [OF w2 sample_ids(1) n]
  show ?thesis by (simp add: sample_presentation_clean)
qed


text \<open>
  The claim is made for every presentation and for "the normalization". A store without
  room for the text rejects the write and leaves nothing to read (the service logs the
  failure and goes on); a presentation whose \<^verbatim>\<open>id\<close> is the empty string is written and
  then dropped by the filter of the next read; and what is read back is not
  slide-cleaned: the sample presentation comes back with its image background still
  without opacity and blur, which the loader's cleaning would add.
\<close>

theorem save_then_get_fails:
  "getPresentation (fst (savePresentation (empty_store\<lparr>quota := 400\<rparr>) sample_presentation)) ''p1''
     = None
   \<and> getPresentation
       (fst (savePresentation empty_store
               (JObj [(''id'', JStr []), (''userId'', JStr ''u1''), (''title'', JStr ''Cats''),
                      (''slides'', JArr []), (''theme'', JStr ''Default''),
                      (''createdAt'', JStr ''2024-01-01T00:00:00.000Z'')]))) []
     = None
   \<and> getPresentation (fst (savePresentation empty_store sample_presentation)) ''p1''
     = Some sample_presentation
   \<and> normalize (\<lambda>i. 0) sample_presentation \<noteq> Some sample_presentation"
proof -
  let ?small = "empty_store\<lparr>quota := 400\<rparr>"
  have "getAndCleanPresentations ?small = []"
    by (simp add: getAndCleanPresentations_def sample_store_fields)
  then have "replaceOrPush (getAndCleanPresentations ?small) sample_presentation
               = [sample_presentation]"
    by (simp add: replaceOrPush_def)
  then have "fst (savePresentation ?small sample_presentation) = ?small"
    by (simp add: savePresentation_def setItem_def sample_lengths)
  then have a: "getPresentation (fst (savePresentation ?small sample_presentation)) ''p1'' = None"
    by (simp add: getPresentation_def getAndCleanPresentations_def sample_store_fields)
  let ?anon = "JObj [(''id'', JStr []), (''userId'', JStr ''u1''), (''title'', JStr ''Cats''),
                      (''slides'', JArr []), (''theme'', JStr ''Default''),
                      (''createdAt'', JStr ''2024-01-01T00:00:00.000Z'')]"
  have "json_length ?anon = 107"
    by code_simp
  then have b: "getPresentation (fst (savePresentation empty_store ?anon)) [] = None"
    by (simp add: getPresentation_def savePresentation_def setItem_def sample_store_read
          sample_store_fields replaceOrPush_def getAndCleanPresentations_def)
  have "fst (savePresentation empty_store sample_presentation)
          = empty_store\<lparr>items := (items empty_store)
               (''presentations'' \<mapsto> Document (JArr [sample_presentation]))\<rparr>"
    by (simp add: savePresentation_def setItem_def sample_store_read replaceOrPush_def
          sample_lengths sample_store_fields)
  then have c: "getPresentation (fst (savePresentation empty_store sample_presentation)) ''p1''
                  = Some sample_presentation"
    by (simp add: getPresentation_def getAndCleanPresentations_def sample_presentation_clean
          sample_ids)
       (simp add: sample_presentation_def)
  have d: "normalize (\<lambda>i. 0) sample_presentation \<noteq> Some sample_presentation"
    by (simp add: sample_presentation_def normalize_def cleanedSlides_def cleanSlide_def
          pick_background_def)
  show ?thesis using a b c d by blast
qed









section \<open>Editing slides\<close>

text \<open>
  What the loader hands to the editor: a presentation whose slides are an array of
  objects, each with its properties once. The statements below take this as given.
\<close>

lemma loaded_has_slides:
  "normalize clock x = Some p \<Longrightarrow>
   get_prop p ''slides'' = Some (JArr (slide_list p)) \<and> slides_of p = Inr (slide_list p)"
  by (auto simp: normalize_def slide_list_def slides_of_def map_of_set_prop Let_def
      split: if_splits)

lemma cleanSlidesFrom_objects:
  "s \<in> set (cleanSlidesFrom clock i xs) \<Longrightarrow> \<exists>kvs. s = JObj kvs \<and> distinct (map fst kvs)"
  by (induction xs arbitrary: i) (auto simp: cleanSlide_def)

lemma loaded_slides_are_objects:
  assumes "normalize clock x = Some p" and "s \<in> set (slide_list p)"
  shows "\<exists>kvs. s = JObj kvs \<and> distinct (map fst kvs)"
proof -
  from assms(1) obtain xs where "slide_list p = cleanedSlides clock xs"
    by (auto simp: normalize_def slide_list_def map_of_set_prop Let_def split: if_splits)
  with assms(2) show ?thesis
    using cleanSlidesFrom_objects by (simp add: cleanedSlides_def)
qed


lemma filter_index:
  "map snd (filter (\<lambda>(index, s). index \<noteq> c) (enumerate n xs))
     = (if c < n then xs else take (c - n) xs @ drop (Suc (c - n)) xs)"
proof (induction xs arbitrary: n)
  case Nil
  then show ?case by simp
next
  case (Cons x xs)
  show ?case
  proof (cases "c = n")
    case True
    then show ?thesis using Cons [of "Suc n"] by simp
  next
    case False
    show ?thesis
    proof (cases "c < n")
      case True
      then show ?thesis using Cons [of "Suc n"] by simp
    next
      case above: False
      with False have "c - n = Suc (c - Suc n)" by arith
      then show ?thesis using Cons [of "Suc n"] False above by simp
    qed
  qed
qed

lemma filter_index_0:
  "map snd (filter (\<lambda>(index, s). index \<noteq> c) (enumerate 0 xs)) = take c xs @ drop (Suc c) xs"
  by (simp add: filter_index)


text \<open>
  Claim C7. With a presentation loaded: when it has exactly one slide, deleting is a
  no-op; when it has more, the slides after the deletion are the old ones without the
  one at the cursor (one fewer when the cursor points at a slide), the new cursor is the
  minimum of the old cursor and the new last index, and it points at a slide.
\<close>

theorem deleteSlide_floor_and_cursor:
  assumes "presentation st = Some p" and "get_prop p ''slides'' = Some (JArr slides)"
  shows "(length slides = 1 \<longrightarrow> deleteSlide st = Inr st)
       \<and> (1 < length slides \<longrightarrow>
            (\<exists>st' p'. deleteSlide st = Inr st' \<and> presentation st' = Some p'
               \<and> slide_list p'
                    = take (currentSlideIndex st) slides @ drop (Suc (currentSlideIndex st)) slides
               \<and> (currentSlideIndex st < length slides \<longrightarrow>
                      length (slide_list p') = length slides - 1)
               \<and> currentSlideIndex st'
                    = min (currentSlideIndex st) (length (slide_list p') - 1)
               \<and> currentSlideIndex st' < length (slide_list p')))"
proof -
  let ?c = "currentSlideIndex st"
  let ?ys = "take ?c slides @ drop (Suc ?c) slides"
  have s: "slides_of p = Inr slides"
    using assms(2) by (simp add: slides_of_def)
  have one: "length slides = 1 \<Longrightarrow> deleteSlide st = Inr st"
    using assms(1) s by (simp add: deleteSlide_def)
  have more: "\<exists>st' p'. deleteSlide st = Inr st' \<and> presentation st' = Some p'
               \<and> slide_list p' = ?ys
               \<and> (?c < length slides \<longrightarrow> length (slide_list p') = length slides - 1)
               \<and> currentSlideIndex st' = min ?c (length (slide_list p') - 1)
               \<and> currentSlideIndex st' < length (slide_list p')"
    if gt: "1 < length slides"
  proof -
    define ys where "ys = ?ys"
    define p' where "p' = JObj (set_prop ''slides'' (JArr ys) (spread [] (own_props p)))"
    define st' where "st' = st\<lparr>presentation := Some p', currentSlideIndex := min ?c (length ys - 1)\<rparr>"
    have sl: "slide_list p' = ys"
      by (simp add: p'_def slide_list_def map_of_set_prop)
    have d: "deleteSlide st = Inr st'"
      using assms(1) s gt
      by (simp add: deleteSlide_def filter_index_0 p'_def st'_def ys_def Let_def)
    have len: "0 < length ys"
      unfolding ys_def using gt by (cases "?c < length slides") auto
    have shorter: "?c < length slides \<longrightarrow> length ys = length slides - 1"
      unfolding ys_def by auto
    have cur: "currentSlideIndex st' = min ?c (length ys - 1)"
      by (simp add: st'_def)
    have "min ?c (length ys - 1) < length ys"
      using len by arith
    then have inside: "currentSlideIndex st' < length ys"
      by (simp only: cur)
    have "presentation st' = Some p'"
      by (simp add: st'_def)
    then show ?thesis
      using d sl shorter cur inside unfolding ys_def [symmetric] by auto
  qed
  show ?thesis using one more by blast
qed



text \<open>The theorem for an editor with one slide, and for one with two and the cursor on the second.\<close>

theorem deleteSlide_floor_and_cursor_witness:
  "deleteSlide (editing [gradient_slide] 0) = Inr (editing [gradient_slide] 0)
   \<and> (\<exists>st' p'. deleteSlide (editing [gradient_slide, colour_slide] 1) = Inr st'
         \<and> presentation st' = Some p' \<and> slide_list p' = [gradient_slide]
         \<and> currentSlideIndex st' = 0)"
proof -
  have one: "presentation (editing [gradient_slide] 0)
               = Some (JObj [(''id'', JStr ''p1''), (''slides'', JArr [gradient_slide])])"
    and two: "presentation (editing [gradient_slide, colour_slide] 1)
               = Some (JObj [(''id'', JStr ''p1''), (''slides'', JArr [gradient_slide, colour_slide])])"
    by (simp_all add: editing_def)
  have s1: "get_prop (JObj [(''id'', JStr ''p1''), (''slides'', JArr [gradient_slide])]) ''slides''
              = Some (JArr [gradient_slide])"
    and s2: "get_prop (JObj [(''id'', JStr ''p1''), (''slides'', JArr [gradient_slide, colour_slide])])
               ''slides'' = Some (JArr [gradient_slide, colour_slide])"
    by simp_all
  have c: "currentSlideIndex (editing slides cursor) = cursor" for slides cursor
    by (simp add: editing_def)
  from deleteSlide_floor_and_cursor [OF one s1] deleteSlide_floor_and_cursor [OF two s2]
  show ?thesis by (auto simp: c)
qed


lemma updateSlide_object:
  assumes "presentation st = Some p" and "get_prop p ''slides'' = Some (JArr slides)"
    and "i < length slides" and "slides ! i = JObj kvs" and "distinct (map fst kvs)"
  shows "updateSlide st i props =
           Inr (st\<lparr>presentation :=
                  Some (JObj (set_prop ''slides'' (JArr (slides[i := JObj (spread kvs props)]))
                                (spread [] (own_props p))))\<rparr>)"
  using assms by (simp add: updateSlide_def slides_of_def spread_empty_distinct)


text \<open>
  Claim C8. With the cursor on a slide (an object, with each property once), changing the
  background gives that slide the new background and nothing else: every other property of the slide (its two text styles
  among them) reads as before, every other slide is the same, the cursor stays. The
  three type buttons pass a fresh value of the chosen type: the image value has opacity 1
  and blur 0 and no gradient property, the gradient and colour values have no property
  of the other types.
\<close>

theorem changeBackground_frame:
  assumes "presentation st = Some p" and "get_prop p ''slides'' = Some (JArr slides)"
    and "currentSlideIndex st < length slides"
    and "slides ! currentSlideIndex st = JObj kvs" and "distinct (map fst kvs)"
  shows "(\<exists>st' p'. changeBackground st newBackground = Inr st' \<and> presentation st' = Some p'
            \<and> currentSlideIndex st' = currentSlideIndex st
            \<and> length (slide_list p') = length slides
            \<and> get_prop (slide_list p' ! currentSlideIndex st) ''background'' = Some newBackground
            \<and> (\<forall>k. k \<noteq> ''background'' \<longrightarrow>
                  get_prop (slide_list p' ! currentSlideIndex st) k
                    = get_prop (slides ! currentSlideIndex st) k)
            \<and> (\<forall>i<length slides. i \<noteq> currentSlideIndex st \<longrightarrow> slide_list p' ! i = slides ! i))
       \<and> backgroundTypeButton render Image st (slides ! currentSlideIndex st)
           = changeBackground st (imageBackground render (slides ! currentSlideIndex st))
       \<and> map (get_prop (imageBackground render (slides ! currentSlideIndex st)))
            [''type'', ''opacity'', ''blur'', ''color1'', ''color2'', ''angle'']
           = [Some (JStr ''image''), Some (JNum ''1''), Some (JNum ''0''), None, None, None]
       \<and> backgroundTypeButton render Gradient st (slides ! currentSlideIndex st)
           = changeBackground st gradientBackground
       \<and> map (get_prop gradientBackground) [''type'', ''value'', ''opacity'', ''blur'']
           = [Some (JStr ''gradient''), None, None, None]
       \<and> backgroundTypeButton render Solid st (slides ! currentSlideIndex st)
           = changeBackground st solidBackground
       \<and> map (get_prop solidBackground)
            [''type'', ''opacity'', ''blur'', ''color1'', ''color2'', ''angle'']
           = [Some (JStr ''color''), None, None, None, None, None]"
proof -
  let ?c = "currentSlideIndex st"
  define slides' where "slides' = slides[?c := JObj (set_prop ''background'' newBackground kvs)]"
  define p' where "p' = JObj (set_prop ''slides'' (JArr slides') (spread [] (own_props p)))"
  define st' where "st' = st\<lparr>presentation := Some p'\<rparr>"
  have u: "changeBackground st newBackground = Inr st'"
    unfolding changeBackground_def updateSlide_object [OF assms]
    by (simp add: st'_def p'_def slides'_def)
  have sl: "slide_list p' = slides'"
    by (simp add: p'_def slide_list_def map_of_set_prop)
  have cur: "slides' ! ?c = JObj (set_prop ''background'' newBackground kvs)"
    using assms(3) by (simp add: slides'_def)
  have bg: "get_prop (slides' ! ?c) ''background'' = Some newBackground"
    by (simp add: cur map_of_set_prop)
  have others: "get_prop (slides' ! ?c) k = get_prop (slides ! ?c) k" if "k \<noteq> ''background''" for k
    using that by (simp add: cur assms(4) map_of_set_prop)
  have rest: "slides' ! i = slides ! i" if "i \<noteq> ?c" for i
    using that by (simp add: slides'_def)
  have "presentation st' = Some p'" and "currentSlideIndex st' = ?c"
    and "length slides' = length slides"
    by (simp_all add: st'_def slides'_def)
  then have first: "\<exists>st' p'. changeBackground st newBackground = Inr st' \<and> presentation st' = Some p'
            \<and> currentSlideIndex st' = ?c
            \<and> length (slide_list p') = length slides
            \<and> get_prop (slide_list p' ! ?c) ''background'' = Some newBackground
            \<and> (\<forall>k. k \<noteq> ''background'' \<longrightarrow>
                  get_prop (slide_list p' ! ?c) k = get_prop (slides ! ?c) k)
            \<and> (\<forall>i<length slides. i \<noteq> ?c \<longrightarrow> slide_list p' ! i = slides ! i)"
    using u bg others rest unfolding sl [symmetric] by blast
  show ?thesis
    using first
    by (simp add: backgroundTypeButton_def imageBackground_def gradientBackground_def
          solidBackground_def)
qed



text \<open>The theorem for a gradient slide switched to an image, with a second slide beside it.\<close>

theorem changeBackground_frame_witness:
  "\<exists>st' p'. backgroundTypeButton (\<lambda>v. case v of Some (JStr s) \<Rightarrow> s | _ \<Rightarrow> []) Image
               (editing [gradient_slide, colour_slide] 0) gradient_slide = Inr st'
      \<and> presentation st' = Some p'
      \<and> get_prop (slide_list p' ! 0) ''background''
           = Some (JObj [(''type'', JStr ''image''),
                         (''value'', JStr ''https://picsum.photos/seed/s1/1280/720''),
                         (''opacity'', JNum ''1''), (''blur'', JNum ''0'')])
      \<and> get_prop (slide_list p' ! 0) ''titleStyle'' = Some (JObj defaultTitleStyle)
      \<and> get_prop (slide_list p' ! 0) ''contentStyle'' = Some (JObj defaultContentStyle)
      \<and> slide_list p' ! 1 = colour_slide"
proof -
  let ?st = "editing [gradient_slide, colour_slide] 0"
  let ?render = "\<lambda>v. case v of Some (JStr s) \<Rightarrow> s | _ \<Rightarrow> []"
  let ?kvs = "[(''id'', JStr ''s1''), (''title'', JStr ''A''), (''content'', JArr [JStr ''a1'']),
           (''background'',
              JObj [(''type'', JStr ''gradient''), (''color1'', JStr ''#000000''),
                    (''color2'', JStr ''#ffffff''), (''angle'', JNum ''45'')]),
           (''titleStyle'', JObj defaultTitleStyle),
           (''contentStyle'', JObj defaultContentStyle)]"
  have p: "presentation ?st
             = Some (JObj [(''id'', JStr ''p1''), (''slides'', JArr [gradient_slide, colour_slide])])"
    by (simp add: editing_def)
  have s: "get_prop (JObj [(''id'', JStr ''p1''), (''slides'', JArr [gradient_slide, colour_slide])])
             ''slides'' = Some (JArr [gradient_slide, colour_slide])"
    by simp
  have c: "currentSlideIndex ?st = 0"
    by (simp add: editing_def)
  have inside: "currentSlideIndex ?st < length [gradient_slide, colour_slide]"
    by (simp add: c)
  have "gradient_slide = JObj ?kvs"
    by (simp add: gradient_slide_def)
  then have obj: "[gradient_slide, colour_slide] ! currentSlideIndex ?st = JObj ?kvs"
    unfolding c by simp
  have dist: "distinct (map fst ?kvs)"
    by simp
  have g: "[gradient_slide, colour_slide] ! 0 = gradient_slide"
    by simp
  have img: "imageBackground ?render gradient_slide
               = JObj [(''type'', JStr ''image''),
                       (''value'', JStr ''https://picsum.photos/seed/s1/1280/720''),
                       (''opacity'', JNum ''1''), (''blur'', JNum ''0'')]"
    by (simp add: imageBackground_def gradient_slide_def)
  have ts: "get_prop gradient_slide ''titleStyle'' = Some (JObj defaultTitleStyle)"
    and cs: "get_prop gradient_slide ''contentStyle'' = Some (JObj defaultContentStyle)"
    by (simp_all add: gradient_slide_def)
  from changeBackground_frame
         [OF p s inside obj dist, of "imageBackground ?render gradient_slide" ?render]
  show ?thesis
    unfolding c g img by (auto simp: ts cs)
qed


section \<open>Image search\<close>

lemma tryProviders_first:
  assumes "\<forall>p\<in>set pre. yields_nothing (p q)" and "snd (provider q) = Inr urls" and "urls \<noteq> []"
  shows "snd (tryProviders (pre @ provider # post) q) = Some urls"
  using assms(1)
proof (induction pre)
  case Nil
  then show ?case using assms(2,3) by (cases "provider q") simp
next
  case (Cons a pre)
  then have "yields_nothing (a q)" and "snd (tryProviders (pre @ provider # post) q) = Some urls"
    by simp_all
  then show ?case
    by (cases "a q") (auto simp: yields_nothing_def split: sum.splits prod.splits)
qed

lemma tryProviders_none:
  "\<forall>p\<in>set ps. yields_nothing (p q) \<Longrightarrow> snd (tryProviders ps q) = None"
proof (induction ps)
  case Nil
  then show ?case by simp
next
  case (Cons a ps)
  then have "yields_nothing (a q)" and "snd (tryProviders ps q) = None"
    by simp_all
  then show ?case
    by (cases "a q") (auto simp: yields_nothing_def split: sum.splits prod.splits)
qed

lemma searchImages_found:
  assumes "trim (gallerySearchQuery st) \<noteq> []"
    and "snd (tryProviders ps (gallerySearchQuery st)) = Some urls"
  shows "galleryImages (searchImages ps st) = urls \<and> alerts (searchImages ps st) = alerts st"
  using assms by (cases "tryProviders ps (gallerySearchQuery st)") (simp add: searchImages_def)

lemma searchImages_exhausted:
  assumes "trim (gallerySearchQuery st) \<noteq> []"
    and "snd (tryProviders ps (gallerySearchQuery st)) = None"
  shows "galleryImages (searchImages ps st) = []
       \<and> alerts (searchImages ps st)
           = alerts st @ [''Could not fetch images. Please try again later.'']"
  using assms by (cases "tryProviders ps (gallerySearchQuery st)") (simp add: searchImages_def)

lemma serp_outcome:
  "searchWithSerpApi serp q =
     ([''Trying primary image provider: SerpApi...''],
      snd (searchWithSerpApi serp q))"
  by (simp add: searchWithSerpApi_def)

lemma serp_nothing:
  "yields_nothing (searchWithSerpApi serp q) \<Longrightarrow> \<exists>err. snd (searchWithSerpApi serp q) = Inl err"
  by (auto simp: yields_nothing_def searchWithSerpApi_def split: http_reply.splits if_splits)


text \<open>
  Claim C9. For a non-blank query: in any list of providers the first that returns a
  non-empty list decides the gallery, and nothing is reported; when every provider throws
  or returns nothing the gallery is empty and the user is told that no images could be
  fetched; the handler itself tries the primary provider first, takes its addresses when
  it has some, and otherwise shows exactly the twelve addresses of the fallback, in
  order, after the console lines of both providers. No case throws.
\<close>

theorem image_search_fallback_order:
  assumes "trim (gallerySearchQuery st) \<noteq> []"
  shows "(\<forall>pre provider post urls.
            (\<forall>p\<in>set pre. yields_nothing (p (gallerySearchQuery st)))
            \<and> snd (provider (gallerySearchQuery st)) = Inr urls \<and> urls \<noteq> [] \<longrightarrow>
              galleryImages (searchImages (pre @ provider # post) st) = urls
            \<and> alerts (searchImages (pre @ provider # post) st) = alerts st)
       \<and> (\<forall>ps. (\<forall>p\<in>set ps. yields_nothing (p (gallerySearchQuery st))) \<longrightarrow>
              galleryImages (searchImages ps st) = []
            \<and> alerts (searchImages ps st)
                = alerts st @ [''Could not fetch images. Please try again later.''])
       \<and> (yields_nothing (searchWithSerpApi serp (gallerySearchQuery st)) \<longrightarrow>
              galleryImages (handleImageSearch serp st)
                = map (\<lambda>i. ''https://picsum.photos/seed/'' @ remove_spaces (gallerySearchQuery st)
                              @ show_nat i @ ''/400/300'') [0..<12]
            \<and> length (galleryImages (handleImageSearch serp st)) = 12
            \<and> alerts (handleImageSearch serp st) = alerts st
            \<and> console (handleImageSearch serp st)
                = console st @ [''Trying primary image provider: SerpApi...'',
                                ''An image provider failed:'',
                                ''Trying fallback image provider...''])
       \<and> (\<forall>urls. serp (gallerySearchQuery st) = Thumbnails urls \<and> urls \<noteq> [] \<longrightarrow>
              galleryImages (handleImageSearch serp st) = urls
            \<and> alerts (handleImageSearch serp st) = alerts st
            \<and> console (handleImageSearch serp st)
                = console st @ [''Trying primary image provider: SerpApi...''])"
proof -
  let ?q = "gallerySearchQuery st"
  have first: "galleryImages (searchImages (pre @ provider # post) st) = urls
             \<and> alerts (searchImages (pre @ provider # post) st) = alerts st"
    if "\<forall>p\<in>set pre. yields_nothing (p ?q)" and "snd (provider ?q) = Inr urls" and "urls \<noteq> []"
    for pre provider post urls
    using that tryProviders_first [of pre "gallerySearchQuery st" provider urls post]
      searchImages_found [OF assms, of "pre @ provider # post" urls] by blast
  have none: "galleryImages (searchImages ps st) = []
            \<and> alerts (searchImages ps st)
                = alerts st @ [''Could not fetch images. Please try again later.'']"
    if "\<forall>p\<in>set ps. yields_nothing (p ?q)" for ps
    using that tryProviders_none [of ps "gallerySearchQuery st"]
      searchImages_exhausted [OF assms, of ps] by blast
  have fallback: "galleryImages (handleImageSearch serp st)
                = map (\<lambda>i. ''https://picsum.photos/seed/'' @ remove_spaces ?q
                              @ show_nat i @ ''/400/300'') [0..<12]
            \<and> length (galleryImages (handleImageSearch serp st)) = 12
            \<and> alerts (handleImageSearch serp st) = alerts st
            \<and> console (handleImageSearch serp st)
                = console st @ [''Trying primary image provider: SerpApi...'',
                                ''An image provider failed:'',
                                ''Trying fallback image provider...'']"
    if "yields_nothing (searchWithSerpApi serp ?q)"
  proof -
    from serp_nothing [OF that] obtain err where "snd (searchWithSerpApi serp ?q) = Inl err"
      by blast
    then have "searchWithSerpApi serp ?q = ([''Trying primary image provider: SerpApi...''], Inl err)"
      using serp_outcome [of serp ?q] by simp
    then show ?thesis
      using assms
      by (simp add: handleImageSearch_def searchImages_def searchWithFallback_def Let_def)
  qed
  have primary: "galleryImages (handleImageSearch serp st) = urls
            \<and> alerts (handleImageSearch serp st) = alerts st
            \<and> console (handleImageSearch serp st)
                = console st @ [''Trying primary image provider: SerpApi...'']"
    if "serp ?q = Thumbnails urls" and "urls \<noteq> []" for urls
    using assms that
    by (simp add: handleImageSearch_def searchImages_def searchWithSerpApi_def)
  show ?thesis
    using first none fallback primary by blast
qed



lemma editing_query: "gallerySearchQuery (editing slides cursor) = ''red cats''"
  and editing_alerts: "alerts (editing slides cursor) = []"
  by (simp_all add: editing_def)

lemma fallback_urls:
  "map (\<lambda>i. ''https://picsum.photos/seed/'' @ remove_spaces ''red cats'' @ show_nat i @ ''/400/300'')
     [0..<12]
   = [''https://picsum.photos/seed/redcats0/400/300'',
      ''https://picsum.photos/seed/redcats1/400/300'',
      ''https://picsum.photos/seed/redcats2/400/300'',
      ''https://picsum.photos/seed/redcats3/400/300'',
      ''https://picsum.photos/seed/redcats4/400/300'',
      ''https://picsum.photos/seed/redcats5/400/300'',
      ''https://picsum.photos/seed/redcats6/400/300'',
      ''https://picsum.photos/seed/redcats7/400/300'',
      ''https://picsum.photos/seed/redcats8/400/300'',
      ''https://picsum.photos/seed/redcats9/400/300'',
      ''https://picsum.photos/seed/redcats10/400/300'',
      ''https://picsum.photos/seed/redcats11/400/300'']"
  by code_simp


text \<open>
  The theorem for a primary provider that answers with status 500, one that answers with
  two thumbnails, a list of two providers that both come back empty-handed, and a list
  of three where the second is the first to return something.
\<close>

theorem image_search_fallback_order_witness:
  "galleryImages (handleImageSearch (\<lambda>q. NotOk 500) (editing [gradient_slide] 0))
     = [''https://picsum.photos/seed/redcats0/400/300'',
        ''https://picsum.photos/seed/redcats1/400/300'',
        ''https://picsum.photos/seed/redcats2/400/300'',
        ''https://picsum.photos/seed/redcats3/400/300'',
        ''https://picsum.photos/seed/redcats4/400/300'',
        ''https://picsum.photos/seed/redcats5/400/300'',
        ''https://picsum.photos/seed/redcats6/400/300'',
        ''https://picsum.photos/seed/redcats7/400/300'',
        ''https://picsum.photos/seed/redcats8/400/300'',
        ''https://picsum.photos/seed/redcats9/400/300'',
        ''https://picsum.photos/seed/redcats10/400/300'',
        ''https://picsum.photos/seed/redcats11/400/300'']
   \<and> galleryImages (handleImageSearch (\<lambda>q. Thumbnails [''t1'', ''t2'']) (editing [gradient_slide] 0))
     = [''t1'', ''t2'']
   \<and> alerts (searchImages [\<lambda>q. ([], Inl NetworkError), \<lambda>q. ([], Inr [])]
               (editing [gradient_slide] 0))
     = [''Could not fetch images. Please try again later.'']
   \<and> galleryImages
       (searchImages ([\<lambda>q. ([], Inr [])] @ (\<lambda>q. ([], Inr [''x'', ''y''])) # [\<lambda>q. ([], Inr [''z''])])
          (editing [gradient_slide] 0))
     = [''x'', ''y'']"
proof -
  let ?st = "editing [gradient_slide] 0"
  have q: "trim (gallerySearchQuery ?st) \<noteq> []"
    by (simp add: editing_query trim_def is_space_def)
  have failed: "yields_nothing (searchWithSerpApi (\<lambda>q. NotOk 500) (gallerySearchQuery ?st))"
    by (simp add: yields_nothing_def searchWithSerpApi_def)
  have none_found: "\<forall>p\<in>set [\<lambda>q. ([], Inl NetworkError), \<lambda>q. ([], Inr [])].
                   yields_nothing (p (gallerySearchQuery ?st))"
    by (simp add: yields_nothing_def)
  have found: "(\<lambda>q. Thumbnails [''t1'', ''t2'']) (gallerySearchQuery ?st) = Thumbnails [''t1'', ''t2'']"
    by simp
  from image_search_fallback_order [OF q, of "\<lambda>q. NotOk 500"] failed
  have a: "galleryImages (handleImageSearch (\<lambda>q. NotOk 500) ?st)
             = map (\<lambda>i. ''https://picsum.photos/seed/'' @ remove_spaces ''red cats''
                           @ show_nat i @ ''/400/300'') [0..<12]"
    unfolding editing_query by blast
  from image_search_fallback_order [OF q, of "\<lambda>q. Thumbnails [''t1'', ''t2'']"] found
  have b: "galleryImages (handleImageSearch (\<lambda>q. Thumbnails [''t1'', ''t2'']) ?st) = [''t1'', ''t2'']"
    by blast
  have c: "alerts (searchImages [\<lambda>q. ([], Inl NetworkError), \<lambda>q. ([], Inr [])] ?st)
             = alerts ?st @ [''Could not fetch images. Please try again later.'']"
  proof -
    from image_search_fallback_order [OF q, of "\<lambda>q. NotOk 500"]
    have "\<forall>ps. (\<forall>p\<in>set ps. yields_nothing (p (gallerySearchQuery ?st))) \<longrightarrow>
              galleryImages (searchImages ps ?st) = []
            \<and> alerts (searchImages ps ?st)
                = alerts ?st @ [''Could not fetch images. Please try again later.'']"
      by (rule conjunct2 [THEN conjunct1])
    then have "(\<forall>p\<in>set [\<lambda>q. ([], Inl NetworkError), \<lambda>q. ([], Inr [])].
                  yields_nothing (p (gallerySearchQuery ?st))) \<longrightarrow>
              galleryImages (searchImages [\<lambda>q. ([], Inl NetworkError), \<lambda>q. ([], Inr [])] ?st) = []
            \<and> alerts (searchImages [\<lambda>q. ([], Inl NetworkError), \<lambda>q. ([], Inr [])] ?st)
                = alerts ?st @ [''Could not fetch images. Please try again later.'']"
      by (rule spec)
    from this [THEN mp, OF none_found] show ?thesis
      by (rule conjunct2)
  qed
  have d: "galleryImages
             (searchImages ([\<lambda>q. ([], Inr [])] @ (\<lambda>q. ([], Inr [''x'', ''y''])) # [\<lambda>q. ([], Inr [''z''])])
                ?st)
           = [''x'', ''y'']"
  proof -
    from image_search_fallback_order [OF q, of "\<lambda>q. NotOk 500"]
    have "\<forall>pre provider post urls.
            (\<forall>p\<in>set pre. yields_nothing (p (gallerySearchQuery ?st)))
            \<and> snd (provider (gallerySearchQuery ?st)) = Inr urls \<and> urls \<noteq> [] \<longrightarrow>
              galleryImages (searchImages (pre @ provider # post) ?st) = urls
            \<and> alerts (searchImages (pre @ provider # post) ?st) = alerts ?st"
      by (rule conjunct1)
    from this [rule_format, of "[\<lambda>q. ([], Inr [])]" "\<lambda>q. ([], Inr [''x'', ''y''])" "[''x'', ''y'']"
                 "[\<lambda>q. ([], Inr [''z''])]"]
    show ?thesis
      by (simp add: yields_nothing_def)
  qed
  show ?thesis
    unfolding a b c d fallback_urls editing_alerts by simp
qed


end
